theory Spec2Isabelle
  imports Complex_Main
begin

section \<open>Mesh utilities of building\_tools (utils/util\_mesh.py)\<close>

text \<open>
  The module works on a Blender \<^verbatim>\<open>bmesh\<close>: vertices, edges and faces are objects with
  identity whose attributes (\<^verbatim>\<open>v.co\<close>, \<^verbatim>\<open>e.verts\<close>, \<^verbatim>\<open>face.select\<close>, ...) are read and
  written in place. The embedding keeps the identities as natural numbers and the
  attributes in a store, the record \<open>bmesh\<close>, that every function takes and, where the
  Python mutates, returns.

  Coordinates are Python floats. They are modelled by the real number a float denotes:
  comparisons, \<^verbatim>\<open>round\<close> and the arithmetic of the module are taken exactly, without
  rounding error, overflow, infinities or NaN.
\<close>

subsection \<open>Vectors and numbers\<close>

datatype Vector = Vector (vx: real) (vy: real) (vz: real)

definition vadd :: "Vector \<Rightarrow> Vector \<Rightarrow> Vector" where
  "vadd a b = Vector (vx a + vx b) (vy a + vy b) (vz a + vz b)"

definition vsub :: "Vector \<Rightarrow> Vector \<Rightarrow> Vector" where
  "vsub a b = Vector (vx a - vx b) (vy a - vy b) (vz a - vz b)"

definition vneg :: "Vector \<Rightarrow> Vector" where
  "vneg a = Vector (- vx a) (- vy a) (- vz a)"

definition vdiv :: "Vector \<Rightarrow> real \<Rightarrow> Vector" where
  "vdiv a c = Vector (vx a / c) (vy a / c) (vz a / c)"

definition vmul :: "Vector \<Rightarrow> Vector \<Rightarrow> Vector" where
  \<comment> \<open>component-wise product: a diagonal scale matrix applied to a point\<close>
  "vmul s a = Vector (vx s * vx a) (vy s * vy a) (vz s * vz a)"

definition vlength :: "Vector \<Rightarrow> real" where
  "vlength a = sqrt ((vx a)\<^sup>2 + (vy a)\<^sup>2 + (vz a)\<^sup>2)"

definition cross :: "Vector \<Rightarrow> Vector \<Rightarrow> Vector" where
  "cross a b = Vector (vy a * vz b - vz a * vy b)
                      (vz a * vx b - vx a * vz b)
                      (vx a * vy b - vy a * vx b)"

definition round_half_even :: "real \<Rightarrow> int" where
  "round_half_even y =
     (let f = \<lfloor>y\<rfloor>; d = y - of_int f
      in if d < 1 / 2 then f
         else if 1 / 2 < d then f + 1
         else if even f then f else f + 1)"

definition py_round :: "real \<Rightarrow> nat \<Rightarrow> real" where
  \<comment> \<open>Python's \<^verbatim>\<open>round(val, ndigits)\<close>: the nearest multiple of \<open>10\<^sup>-\<^sup>n\<close>, ties to even\<close>
  "py_round val ndigits = of_int (round_half_even (val * 10 ^ ndigits)) / 10 ^ ndigits"

datatype error = ValueError | ZeroDivisionError | IndexError | AttributeError | UnboundLocalError

fun py_max :: "real list \<Rightarrow> error + real" where
  "py_max [] = Inl ValueError"
| "py_max (x # xs) = Inr (fold max xs x)"

fun py_min :: "real list \<Rightarrow> error + real" where
  "py_min [] = Inl ValueError"
| "py_min (x # xs) = Inr (fold min xs x)"

subsection \<open>The mesh\<close>

type_synonym vert = nat
type_synonym edge = nat
type_synonym face = nat

datatype geom = GVert vert | GEdge edge | GFace face

datatype elem_type = BMVert | BMEdge | BMFace

datatype Matrix = Translation Vector

text \<open>
  The mesh kernel's primitives are not part of the module. Every call of one is recorded
  in the mesh's \<open>op_log\<close>, in order and with its arguments, so that a statement can say
  which primitives a function invoked.
\<close>

datatype op_call =
    SubdivideEdges "edge list" int
  | Scale Vector "vert list" Matrix
  | Translate "vert list" Vector
  | RemoveDoubles "vert list"

record bmesh =
  bm_verts :: "vert list"
  bm_edges :: "edge list"
  bm_faces :: "face list"
  v_co :: "vert \<Rightarrow> Vector"
  v_link_edges :: "vert \<Rightarrow> edge list"
  e_v :: "edge \<Rightarrow> vert \<times> vert"
  f_verts :: "face \<Rightarrow> vert list"
  f_edges :: "face \<Rightarrow> edge list"
  f_normal :: "face \<Rightarrow> Vector"
  f_select :: "face \<Rightarrow> bool"
  op_log :: "op_call list"

definition e_verts :: "bmesh \<Rightarrow> edge \<Rightarrow> vert list" where
  \<comment> \<open>\<^verbatim>\<open>e.verts\<close>: the two end points of an edge\<close>
  "e_verts bm e = [fst (e_v bm e), snd (e_v bm e)]"

definition calc_length :: "bmesh \<Rightarrow> edge \<Rightarrow> real" where
  \<comment> \<open>\<^verbatim>\<open>e.calc_length()\<close>: the distance between the end points\<close>
  "calc_length bm e = vlength (vsub (v_co bm (fst (e_v bm e))) (v_co bm (snd (e_v bm e))))"

definition calc_center_median :: "bmesh \<Rightarrow> face \<Rightarrow> Vector" where
  \<comment> \<open>\<^verbatim>\<open>face.calc_center_median()\<close>: the mean of the positions of the face's vertices\<close>
  "calc_center_median bm f =
     vdiv (foldl vadd (Vector 0 0 0) (map (v_co bm) (f_verts bm f)))
          (real (length (f_verts bm f)))"

subsection \<open>The kernel primitives\<close>

record subdivide_result =
  geom_inner :: "geom list"
  geom_split :: "geom list"
  geom_all :: "geom list"

text \<open>
  Subdividing edges and merging near vertices rebuild the topology of the mesh; what they
  produce is the kernel's business. They are parameters of the model: a \<open>kernel\<close> gives,
  for a mesh and the arguments of the call, the mesh afterwards (and for a subdivision
  the result dictionary).
\<close>

record kernel =
  subdivide_edges :: "bmesh \<Rightarrow> edge list \<Rightarrow> int \<Rightarrow> subdivide_result \<times> bmesh"
  remove_doubles :: "bmesh \<Rightarrow> vert list \<Rightarrow> bmesh"

definition bmesh_ops_subdivide_edges ::
  "kernel \<Rightarrow> bmesh \<Rightarrow> edge list \<Rightarrow> int \<Rightarrow> subdivide_result \<times> bmesh" where
  "bmesh_ops_subdivide_edges k bm edges cuts =
     (let (res, bm') = subdivide_edges k bm edges cuts
      in (res, bm'\<lparr>op_log := op_log bm @ [SubdivideEdges edges cuts]\<rparr>))"

definition bmesh_ops_remove_doubles :: "kernel \<Rightarrow> bmesh \<Rightarrow> vert list \<Rightarrow> bmesh" where
  "bmesh_ops_remove_doubles k bm verts =
     (remove_doubles k bm verts)\<lparr>op_log := op_log bm @ [RemoveDoubles verts]\<rparr>"

definition bmesh_ops_scale :: "bmesh \<Rightarrow> Vector \<Rightarrow> vert list \<Rightarrow> Matrix \<Rightarrow> bmesh" where
  \<comment> \<open>Modelled from the spec: the kernel primitive \<^verbatim>\<open>bmesh.ops.scale\<close>, which is not in the
      module. It scales the listed vertices about a pivot: with the pivot transform
      \<open>T\<close> (\<^verbatim>\<open>space\<close>, a translation) each listed vertex \<open>p\<close> moves to
      \<open>T\<^sup>-\<^sup>1 (vec * (T p))\<close>; the other vertices stay.\<close>
  "bmesh_ops_scale bm vec verts space =
     (case space of Translation t \<Rightarrow>
        bm\<lparr>v_co := (\<lambda>v. if v \<in> set verts
                            then vsub (vmul vec (vadd (v_co bm v) t)) t
                            else v_co bm v),
            op_log := op_log bm @ [Scale vec verts space]\<rparr>)"

definition bmesh_ops_translate :: "bmesh \<Rightarrow> vert list \<Rightarrow> Vector \<Rightarrow> bmesh" where
  \<comment> \<open>Modelled from the spec: the kernel primitive \<^verbatim>\<open>bmesh.ops.translate\<close>, which is not
      in the module. It moves the listed vertices by the offset vector.\<close>
  "bmesh_ops_translate bm verts vec =
     bm\<lparr>v_co := (\<lambda>v. if v \<in> set verts then vadd (v_co bm v) vec else v_co bm v),
         op_log := op_log bm @ [Translate verts vec]\<rparr>"

subsection \<open>Selecting geometry\<close>

fun isinstance :: "geom \<Rightarrow> elem_type \<Rightarrow> bool" where
  "isinstance (GVert _) t = (t = BMVert)"
| "isinstance (GEdge _) t = (t = BMEdge)"
| "isinstance (GFace _) t = (t = BMFace)"

definition filter_geom :: "geom list \<Rightarrow> elem_type \<Rightarrow> geom list" where
  "filter_geom geom ty = filter (\<lambda>x. isinstance x ty) geom"

fun as_verts :: "geom list \<Rightarrow> vert list" where
  \<comment> \<open>the vertices of a geometry list, as the typed model needs them where Python
      passes the filtered list on\<close>
  "as_verts [] = []"
| "as_verts (GVert v # xs) = v # as_verts xs"
| "as_verts (_ # xs) = as_verts xs"

primrec filter_vertical_edges :: "bmesh \<Rightarrow> edge list \<Rightarrow> Vector \<Rightarrow> edge list" where
  "filter_vertical_edges bm [] normal = []"
| "filter_vertical_edges bm (e # edges) normal =
     (let rnd = (\<lambda>val. py_round val 4);
          s = (if vz normal \<noteq> 0 then remdups (map (\<lambda>v. rnd (vx (v_co bm v))) (e_verts bm e))
               else if vy normal \<noteq> 0 then remdups (map (\<lambda>v. rnd (vx (v_co bm v))) (e_verts bm e))
               else remdups (map (\<lambda>v. rnd (vy (v_co bm v))) (e_verts bm e)))
      in if length s = 1 then e # filter_vertical_edges bm edges normal
         else filter_vertical_edges bm edges normal)"

primrec filter_horizontal_edges :: "bmesh \<Rightarrow> edge list \<Rightarrow> Vector \<Rightarrow> edge list" where
  "filter_horizontal_edges bm [] normal = []"
| "filter_horizontal_edges bm (e # edges) normal =
     (let rnd = (\<lambda>val. py_round val 4);
          s = (if vz normal \<noteq> 0 then remdups (map (\<lambda>v. rnd (vy (v_co bm v))) (e_verts bm e))
               else if vy normal \<noteq> 0 then remdups (map (\<lambda>v. rnd (vz (v_co bm v))) (e_verts bm e))
               else remdups (map (\<lambda>v. rnd (vz (v_co bm v))) (e_verts bm e)))
      in if length s = 1 then e # filter_horizontal_edges bm edges normal
         else filter_horizontal_edges bm edges normal)"

definition calc_edge_orient :: "bmesh \<Rightarrow> edge \<Rightarrow> Vector" where
  "calc_edge_orient bm edge =
     (let x_coords = remdups (map (\<lambda>v. py_round (vx (v_co bm v)) 1) (e_verts bm edge));
          y_coords = remdups (map (\<lambda>v. py_round (vy (v_co bm v)) 1) (e_verts bm edge));
          z_coords = remdups (map (\<lambda>v. py_round (vz (v_co bm v)) 1) (e_verts bm edge))
      in if length x_coords = 1 \<or> length y_coords = 1 then Vector 0 0 1
         else if length z_coords = 1 \<and> length y_coords = 1 then Vector 1 0 0
         else if length z_coords = 1 \<and> length x_coords = 1 then Vector 0 1 0
         else Vector 0 0 0)"

subsection \<open>Face measures\<close>





subsection \<open>Squaring a face\<close>

definition square_face :: "bmesh \<Rightarrow> face \<Rightarrow> (error + real) \<times> bmesh" where
  "square_face bm face =
     (case py_max (map (calc_length bm) (f_edges bm face)) of
        Inl err \<Rightarrow> (Inl err, bm)
      | Inr max_length \<Rightarrow>
     (case py_min (map (calc_length bm) (f_edges bm face)) of
        Inl err \<Rightarrow> (Inl err, bm)
      | Inr min_length \<Rightarrow>
     if min_length = 0 then (Inl ZeroDivisionError, bm)
     else
       let scale_factor = max_length / min_length;
           shortest = filter (\<lambda>e. calc_length bm e = min_length) (f_edges bm face)
       in if shortest = [] then (Inl IndexError, bm)
          else
            let min_edge = last shortest;
                scale_vec =
                  (if calc_edge_orient bm min_edge = Vector 1 0 0 then Vector scale_factor 1 1
                   else if calc_edge_orient bm min_edge = Vector 0 1 0 then Vector 1 scale_factor 1
                   else if calc_edge_orient bm min_edge = Vector 0 0 1 then Vector 1 1 scale_factor
                   else Vector 1 1 1);
                fc = calc_center_median bm face
            in (Inr scale_factor,
                bmesh_ops_scale bm scale_vec (f_verts bm face) (Translation (vneg fc)))))"

subsection \<open>Finding a face by its vertices\<close>

primrec face_with_verts_loop :: "bmesh \<Rightarrow> vert list \<Rightarrow> face option \<Rightarrow> face list \<Rightarrow> face option" where
  "face_with_verts_loop bm verts dflt [] = dflt"
| "face_with_verts_loop bm verts dflt (face # faces) =
     (if length (remdups (f_verts bm face @ verts)) = length verts then Some face
      else face_with_verts_loop bm verts dflt faces)"

definition face_with_verts :: "bmesh \<Rightarrow> vert list \<Rightarrow> face option \<Rightarrow> face option" where
  \<comment> \<open>\<open>None\<close> is Python's \<^verbatim>\<open>None\<close>, the default of the parameter \<^verbatim>\<open>default\<close>, here \<open>dflt\<close>\<close>
  "face_with_verts bm verts dflt = face_with_verts_loop bm verts dflt (bm_faces bm)"

subsection \<open>Subdividing the selected quads\<close>

text \<open>
  \<^verbatim>\<open>split_quad\<close> takes the mesh of the edit session; here it is the argument \<open>bm\<close>.
  The local \<^verbatim>\<open>res\<close> is bound only in the loop body: \<open>None\<close> is the unbound local.
\<close>

fun split_quad_loop ::
  "kernel \<Rightarrow> bool \<Rightarrow> int \<Rightarrow> face list \<Rightarrow> bmesh \<times> subdivide_result option
     \<Rightarrow> bmesh \<times> subdivide_result option" where
  "split_quad_loop k vertical cuts [] (bm, res) = (bm, res)"
| "split_quad_loop k vertical cuts (face # faces) (bm, res) =
     (let e = (if vertical then filter_horizontal_edges bm (f_edges bm face) (f_normal bm face)
               else filter_vertical_edges bm (f_edges bm face) (f_normal bm face));
          (res', bm') = bmesh_ops_subdivide_edges k bm e cuts
      in split_quad_loop k vertical cuts faces (bm', Some res'))"

definition split_quad :: "kernel \<Rightarrow> bmesh \<Rightarrow> bool \<Rightarrow> int \<Rightarrow> (error + subdivide_result) \<times> bmesh" where
  "split_quad k bm vertical cuts =
     (let faces = filter (f_select bm) (bm_faces bm);
          (bm', res) = split_quad_loop k vertical cuts faces (bm, None)
      in case res of None \<Rightarrow> (Inl UnboundLocalError, bm') | Some r \<Rightarrow> (Inr r, bm'))"

subsection \<open>Splitting a quad\<close>

definition flat_z :: "bmesh \<Rightarrow> edge \<Rightarrow> bool" where
  \<comment> \<open>the filter of lines 171 and 191: the rounded z of the edge's vertices is one value\<close>
  "flat_z bm e = (length (remdups (map (\<lambda>v. py_round (vz (v_co bm v)) 1) (e_verts bm e))) = 1)"

definition split_horizontal ::
  "kernel \<Rightarrow> bmesh \<Rightarrow> face \<Rightarrow> Vector \<Rightarrow> real \<Rightarrow> bmesh \<times> vert list" where
  \<comment> \<open>the body of \<^verbatim>\<open>if do_horizontal:\<close>; gives the mesh and \<^verbatim>\<open>verts\<close>\<close>
  "split_horizontal k bm face median shorizontal =
     (let horizontal = filter (flat_z bm) (f_edges bm face);
          (sp_res, bm1) = bmesh_ops_subdivide_edges k bm horizontal 2;
          verts = as_verts (filter_geom (geom_inner sp_res) BMVert);
          T = Translation (vneg median);
          sv = cross (f_normal bm1 face) (Vector 0 0 1);
          scale_vector = Vector (if vx sv \<noteq> 0 then \<bar>vx sv\<bar> * shorizontal else 1)
                                (if vy sv \<noteq> 0 then \<bar>vy sv\<bar> * shorizontal else 1)
                                (if vz sv \<noteq> 0 then \<bar>vz sv\<bar> * shorizontal else 1)
      in (bmesh_ops_scale bm1 scale_vector verts T, verts))"

definition split_vertical ::
  "kernel \<Rightarrow> bmesh \<Rightarrow> face \<Rightarrow> bool \<Rightarrow> vert list \<Rightarrow> Vector \<Rightarrow> real
     \<Rightarrow> (error + vert list) \<times> bmesh" where
  \<comment> \<open>the body of \<^verbatim>\<open>if do_vertical:\<close>; gives \<^verbatim>\<open>verts\<close> and the mesh, or the
      AttributeError of \<^verbatim>\<open>face.edges\<close> when no face was found. The edges of
      \<^verbatim>\<open>list(set(face.edges) - set(other))\<close> are listed in the face's order.\<close>
  "split_vertical k bm face do_horizontal verts median svertical =
     (let bm1 = bmesh_ops_remove_doubles k bm (bm_verts bm);
          face' = (if do_horizontal then face_with_verts bm1 verts None else Some face)
      in case face' of
           None \<Rightarrow> (Inl AttributeError, bm1)
         | Some face \<Rightarrow>
             let other = filter (flat_z bm1) (f_edges bm1 face);
                 vertical = filter (\<lambda>e. e \<notin> set other) (remdups (f_edges bm1 face));
                 (sp_res, bm2) = bmesh_ops_subdivide_edges k bm1 vertical 2;
                 verts = as_verts (filter_geom (geom_inner sp_res) BMVert);
                 T = Translation (vneg median)
             in (Inr verts, bmesh_ops_scale bm2 (Vector 1 1 svertical) verts T))"

definition split_offset ::
  "bmesh \<Rightarrow> bool \<Rightarrow> bool \<Rightarrow> vert list \<Rightarrow> real \<Rightarrow> real \<Rightarrow> real \<Rightarrow> bmesh" where
  \<comment> \<open>the section OFFSET VERTS\<close>
  "split_offset bm do_horizontal do_vertical verts offx offy offz =
     (let bm1 =
            (if do_horizontal \<and> do_vertical then
               let link_edges = concat (map (v_link_edges bm) verts);
                   all_verts = remdups (concat (map (e_verts bm) link_edges))
               in bmesh_ops_translate bm all_verts (Vector offx offy 0)
             else if do_horizontal \<and> \<not> do_vertical then
               bmesh_ops_translate bm verts (Vector offx offy 0)
             else bm)
      in bmesh_ops_translate bm1 verts (Vector 0 0 offz))"

definition split ::
  "kernel \<Rightarrow> bmesh \<Rightarrow> face \<Rightarrow> real \<Rightarrow> real \<Rightarrow> real \<Rightarrow> real \<Rightarrow> real
     \<Rightarrow> (error + face option) \<times> bmesh" where
  \<comment> \<open>\<open>svertical0\<close> and \<open>shorizontal0\<close> are the arguments, \<open>svertical\<close> and \<open>shorizontal\<close>
      the locals after \<^verbatim>\<open>*= scale\<close>. Without the horizontal pass \<^verbatim>\<open>verts\<close> is unbound
      until the vertical pass binds it; the \<open>[]\<close> that stands for it is never read.\<close>
  "split k bm face svertical0 shorizontal0 offx offy offz =
     (let scale = 3;
          svertical = svertical0 * scale;
          shorizontal = shorizontal0 * scale;
          do_vertical = (svertical < scale);
          do_horizontal = (shorizontal < scale);
          bm1 = bm\<lparr>f_select := (f_select bm)(face := False)\<rparr>;
          median = calc_center_median bm1 face
      in if \<not> do_horizontal \<and> \<not> do_vertical then (Inr (Some face), bm1)
         else
           let (bm2, verts) =
                 (if do_horizontal then split_horizontal k bm1 face median shorizontal
                  else (bm1, []));
               (r, bm3) =
                 (if do_vertical then split_vertical k bm2 face do_horizontal verts median svertical
                  else (Inr verts, bm2))
           in case r of
                Inl err \<Rightarrow> (Inl err, bm3)
              | Inr verts \<Rightarrow>
                  let bm4 = split_offset bm3 do_horizontal do_vertical verts offx offy offz
                  in (Inr (face_with_verts bm4 verts None), bm4))"

subsection \<open>A kernel after the spec\<close>

text \<open>
  What the spec says of the two topological primitives is modelled too, so that a
  statement about what a call of them does to the mesh has a kernel to be checked on:
  \<open>subdivide\<close> splits every edge of its edge set into \<open>cuts + 1\<close> even segments, and
  \<open>merge_near\<close> collapses vertices closer than a distance \<open>eps\<close>. New elements get identities
  above those in use. The definitions of this subsection are that model; none of them
  translates code of the module.
\<close>

definition fresh :: "nat list \<Rightarrow> nat" where
  \<comment> \<open>an identity above all the given ones\<close>
  "fresh ids = fold (\<lambda>i n. max (Suc i) n) ids 0"

definition lerp :: "Vector \<Rightarrow> Vector \<Rightarrow> real \<Rightarrow> Vector" where
  \<comment> \<open>the point at the fraction \<open>t\<close> of the way from \<open>a\<close> to \<open>b\<close>\<close>
  "lerp a b t = vadd a (vmul (Vector t t t) (vsub b a))"

fun insert_between :: "vert \<Rightarrow> vert \<Rightarrow> vert list \<Rightarrow> vert list \<Rightarrow> vert list" where
  "insert_between a b news (x # y # vs) =
     (if x = a \<and> y = b then x # news @ y # vs
      else if x = b \<and> y = a then x # rev news @ y # vs
      else x # insert_between a b news (y # vs))"
| "insert_between a b news vs = vs"

definition loop_insert :: "vert \<Rightarrow> vert \<Rightarrow> vert list \<Rightarrow> vert list \<Rightarrow> vert list" where
  \<comment> \<open>the vertex loop of a face with the new vertices between \<open>a\<close> and \<open>b\<close>, also where the
      loop closes\<close>
  "loop_insert a b news vs =
     (if insert_between a b news vs \<noteq> vs then insert_between a b news vs
      else if vs \<noteq> [] \<and> last vs = a \<and> hd vs = b then vs @ news
      else if vs \<noteq> [] \<and> last vs = b \<and> hd vs = a then vs @ rev news
      else vs)"

definition split_edge :: "bmesh \<Rightarrow> edge \<Rightarrow> nat \<Rightarrow> bmesh \<times> vert list \<times> edge list" where
  \<comment> \<open>Modelled from the spec: one edge of a call of the kernel primitive
      \<^verbatim>\<open>bmesh.ops.subdivide_edges\<close>, which is not in the module. The edge from \<open>a\<close> to \<open>b\<close>
      gets \<open>c\<close> new vertices, evenly spaced, and becomes the chain of \<open>c + 1\<close> segments
      through them: the edge itself from \<open>a\<close> to the first new vertex, then \<open>c\<close> new
      edges. A face along the edge keeps its identity and has the new vertices and
      segments in its loop; the spec says nothing of new faces, and none are made. The
      result is the mesh, the new vertices and the new edges.\<close>
  "split_edge bm e c =
     (let a = fst (e_v bm e);
          b = snd (e_v bm e);
          nv = fresh (bm_verts bm);
          ne = fresh (bm_edges bm);
          new_verts = map (\<lambda>i. nv + i) [0..<c];
          new_edges = map (\<lambda>i. ne + i) [0..<c];
          chain = a # new_verts @ [b];
          segs = e # new_edges
      in (bm\<lparr>bm_verts := bm_verts bm @ new_verts,
             bm_edges := bm_edges bm @ new_edges,
             v_co := (\<lambda>v. if nv \<le> v \<and> v < nv + c
                           then lerp (v_co bm a) (v_co bm b) (real (v - nv + 1) / real (c + 1))
                           else v_co bm v),
             v_link_edges :=
               (\<lambda>v. if nv \<le> v \<and> v < nv + c then [segs ! (v - nv), segs ! (v - nv + 1)]
                     else if v = b then map (\<lambda>x. if x = e then last segs else x) (v_link_edges bm b)
                     else v_link_edges bm v),
             e_v := (\<lambda>x. if x = e then (a, chain ! 1)
                          else if ne \<le> x \<and> x < ne + c
                          then (chain ! (x - ne + 1), chain ! (x - ne + 2))
                          else e_v bm x),
             f_verts := (\<lambda>f. if e \<in> set (f_edges bm f)
                              then loop_insert a b new_verts (f_verts bm f)
                              else f_verts bm f),
             f_edges := (\<lambda>f. concat (map (\<lambda>x. if x = e then segs else [x]) (f_edges bm f)))\<rparr>,
          new_verts, new_edges))"

fun split_edges :: "edge list \<Rightarrow> nat \<Rightarrow> bmesh \<times> vert list \<times> edge list
    \<Rightarrow> bmesh \<times> vert list \<times> edge list" where
  "split_edges [] c acc = acc"
| "split_edges (e # es) c (bm, nvs, nes) =
     (let r = split_edge bm e c
      in split_edges es c (fst r, nvs @ fst (snd r), nes @ snd (snd r)))"

definition subdivide :: "bmesh \<Rightarrow> edge list \<Rightarrow> int \<Rightarrow> subdivide_result \<times> bmesh" where
  \<comment> \<open>Modelled from the spec: the kernel primitive \<^verbatim>\<open>bmesh.ops.subdivide_edges\<close>, which is
      not in the module: \<open>subdivide(edge_set, cuts)\<close> splits each edge of the set into
      \<open>cuts + 1\<close> segments and returns the geometry it created. The inner geometry is
      the new vertices and the new edges.\<close>
  "subdivide bm edges cuts =
     (let r = split_edges (remdups edges) (nat cuts) (bm, [], []);
          inner = map GVert (fst (snd r)) @ map GEdge (snd (snd r))
      in (\<lparr>geom_inner = inner,
           geom_split = map GEdge (remdups edges),
           geom_all = inner @ map GEdge (remdups edges)\<rparr>,
          fst r))"

definition near :: "bmesh \<Rightarrow> real \<Rightarrow> vert \<Rightarrow> vert \<Rightarrow> bool" where
  \<comment> \<open>the two vertices are closer than \<open>eps\<close>; the distances are compared by their
      squares\<close>
  "near bm eps v w =
     (0 < eps \<and>
      (vx (v_co bm v) - vx (v_co bm w))\<^sup>2 + (vy (v_co bm v) - vy (v_co bm w))\<^sup>2
        + (vz (v_co bm v) - vz (v_co bm w))\<^sup>2 < eps\<^sup>2)"

primrec collapse_targets :: "bmesh \<Rightarrow> real \<Rightarrow> vert list \<Rightarrow> vert list \<Rightarrow> (vert \<times> vert) list" where
  \<comment> \<open>the vertices in turn, each with the vertex it collapses into: the first vertex kept
      so far that is near it, or itself, and then it is kept\<close>
  "collapse_targets bm eps [] kept = []"
| "collapse_targets bm eps (v # vs) kept =
     (case find (near bm eps v) kept of
        Some w \<Rightarrow> (v, w) # collapse_targets bm eps vs kept
      | None \<Rightarrow> (v, v) # collapse_targets bm eps vs (kept @ [v]))"

definition merge_near :: "bmesh \<Rightarrow> vert list \<Rightarrow> real \<Rightarrow> bmesh" where
  \<comment> \<open>Modelled from the spec: the kernel primitive \<^verbatim>\<open>bmesh.ops.remove_doubles\<close>, which is not
      in the module: \<open>merge_near(vertex_set, epsilon)\<close> collapses mutually-near vertices. A
      vertex that collapses into another leaves the mesh, and the edges and faces that
      used it use the other; the vertex kept stays where it is.\<close>
  "merge_near bm verts eps =
     (let targets = collapse_targets bm eps verts [];
          rep = (\<lambda>v. case map_of targets v of Some w \<Rightarrow> w | None \<Rightarrow> v)
      in bm\<lparr>bm_verts := filter (\<lambda>v. rep v = v) (bm_verts bm),
            e_v := (\<lambda>e. (rep (fst (e_v bm e)), rep (snd (e_v bm e)))),
            f_verts := (\<lambda>f. map rep (f_verts bm f)),
            v_link_edges :=
              (\<lambda>v. if rep v = v
                    then remdups (v_link_edges bm v
                           @ concat (map (v_link_edges bm) (filter (\<lambda>u. u \<noteq> v \<and> rep u = v) verts)))
                    else [])\<rparr>)"

definition spec_kernel :: "real \<Rightarrow> kernel" where
  \<comment> \<open>the kernel of the two modelled primitives, merging below the distance \<open>eps\<close>\<close>
  "spec_kernel eps =
     \<lparr>subdivide_edges = subdivide,
      remove_doubles = (\<lambda>bm verts. merge_near bm verts eps)\<rparr>"

subsection \<open>Well-formed meshes and chains of segments\<close>

definition well_formed :: "bmesh \<Rightarrow> bool" where
  \<comment> \<open>the edges of every face are edges of the mesh, and the end points of every edge are
      vertices of the mesh\<close>
  "well_formed bm =
     ((\<forall>f\<in>set (bm_faces bm). set (f_edges bm f) \<subseteq> set (bm_edges bm))
      \<and> (\<forall>e\<in>set (bm_edges bm).
            fst (e_v bm e) \<in> set (bm_verts bm) \<and> snd (e_v bm e) \<in> set (bm_verts bm)))"

definition even_chain :: "bmesh \<Rightarrow> Vector \<Rightarrow> Vector \<Rightarrow> vert list \<Rightarrow> edge list \<Rightarrow> bool" where
  \<comment> \<open>the distinct edges \<open>segs\<close> run through the vertices \<open>vs\<close>, one after the other, and the
      vertices divide the way from \<open>pa\<close> to \<open>pb\<close> into as many equal parts as there are
      edges\<close>
  "even_chain bm pa pb vs segs =
     (length vs = length segs + 1 \<and> distinct segs
      \<and> map (e_v bm) segs = zip (butlast vs) (tl vs)
      \<and> map (v_co bm) vs = map (\<lambda>i. lerp pa pb (real i / real (length segs))) [0..<length vs])"

subsection \<open>Concrete meshes\<close>

definition quad_mesh :: "Vector \<Rightarrow> Vector \<Rightarrow> Vector \<Rightarrow> Vector \<Rightarrow> Vector \<Rightarrow> bmesh" where
  \<comment> \<open>one selected quad: vertices 0..3 at the four positions, edge \<open>i\<close> from vertex \<open>i\<close> to the
      next one, face 0 with the given normal\<close>
  "quad_mesh p0 p1 p2 p3 n =
     \<lparr>bm_verts = [0, 1, 2, 3],
      bm_edges = [0, 1, 2, 3],
      bm_faces = [0],
      v_co = (\<lambda>v. if v = 0 then p0 else if v = 1 then p1 else if v = 2 then p2 else p3),
      v_link_edges = (\<lambda>v. if v = 0 then [3, 0] else if v = 1 then [0, 1]
                           else if v = 2 then [1, 2] else [2, 3]),
      e_v = (\<lambda>e. if e = 0 then (0, 1) else if e = 1 then (1, 2)
                  else if e = 2 then (2, 3) else (3, 0)),
      f_verts = (\<lambda>f. [0, 1, 2, 3]),
      f_edges = (\<lambda>f. [0, 1, 2, 3]),
      f_normal = (\<lambda>f. n),
      f_select = (\<lambda>f. True),
      op_log = []\<rparr>"

definition unit_quad :: bmesh where
  \<comment> \<open>the unit square of the XZ plane, facing \<open>-Y\<close>\<close>
  "unit_quad = quad_mesh (Vector 0 0 0) (Vector 1 0 0) (Vector 1 0 1) (Vector 0 0 1) (Vector 0 (-1) 0)"

definition inert_kernel :: kernel where
  \<comment> \<open>a kernel that creates and merges nothing\<close>
  "inert_kernel =
     \<lparr>subdivide_edges = (\<lambda>bm edges cuts. (\<lparr>geom_inner = [], geom_split = [], geom_all = []\<rparr>, bm)),
      remove_doubles = (\<lambda>bm verts. bm)\<rparr>"

definition two_quads :: bmesh where
  \<comment> \<open>two selected unit quads of the XZ plane side by side, sharing edge 1\<close>
  "two_quads =
     \<lparr>bm_verts = [0, 1, 2, 3, 4, 5],
      bm_edges = [0, 1, 2, 3, 4, 5, 6],
      bm_faces = [0, 1],
      v_co = (\<lambda>v. if v = 0 then Vector 0 0 0 else if v = 1 then Vector 1 0 0
                  else if v = 2 then Vector 1 0 1 else if v = 3 then Vector 0 0 1
                  else if v = 4 then Vector 2 0 0 else Vector 2 0 1),
      v_link_edges = (\<lambda>v. if v = 0 then [3, 0] else if v = 1 then [0, 1, 4]
                           else if v = 2 then [1, 2, 6] else if v = 3 then [2, 3]
                           else if v = 4 then [4, 5] else [5, 6]),
      e_v = (\<lambda>e. if e = 0 then (0, 1) else if e = 1 then (1, 2)
                  else if e = 2 then (2, 3) else if e = 3 then (3, 0)
                  else if e = 4 then (1, 4) else if e = 5 then (4, 5) else (5, 2)),
      f_verts = (\<lambda>f. if f = 0 then [0, 1, 2, 3] else [1, 4, 5, 2]),
      f_edges = (\<lambda>f. if f = 0 then [0, 1, 2, 3] else [4, 5, 6, 1]),
      f_normal = (\<lambda>f. Vector 0 (-1) 0),
      f_select = (\<lambda>f. True),
      op_log = []\<rparr>"

definition upright_rect :: bmesh where
  \<comment> \<open>a 2 by 1 rectangle of the XZ plane: the short edges run along Z\<close>
  "upright_rect =
     quad_mesh (Vector 0 0 0) (Vector 2 0 0) (Vector 2 0 1) (Vector 0 0 1) (Vector 0 (-1) 0)"

definition lying_rect :: bmesh where
  \<comment> \<open>a 1 by 2 rectangle of the XY plane: the short edges run along X\<close>
  "lying_rect =
     quad_mesh (Vector 0 0 0) (Vector 1 0 0) (Vector 1 2 0) (Vector 0 2 0) (Vector 0 0 1)"

definition tilted_rect :: bmesh where
  \<comment> \<open>a 1 by 2 rectangle of the XY plane turned about Z: the short edges run along
      (3/5, 4/5, 0), the long ones along (-4/5, 3/5, 0)\<close>
  "tilted_rect =
     quad_mesh (Vector 0 0 0) (Vector (3/5) (4/5) 0) (Vector (-1) 2 0) (Vector (-8/5) (6/5) 0)
       (Vector 0 0 1)"

definition pinched_quad :: bmesh where
  \<comment> \<open>a quad whose last two vertices coincide: edge 2 has length 0\<close>
  "pinched_quad =
     quad_mesh (Vector 0 0 0) (Vector 2 0 0) (Vector 2 0 1) (Vector 2 0 1) (Vector 0 (-1) 0)"

definition quad_far_doubles :: bmesh where
  \<comment> \<open>the unit square of the XZ plane on the vertices 2..5, and far from it two loose
      vertices 0 and 1 at the same place\<close>
  "quad_far_doubles =
     \<lparr>bm_verts = [0, 1, 2, 3, 4, 5],
      bm_edges = [0, 1, 2, 3],
      bm_faces = [0],
      v_co = (\<lambda>v. if v = 0 then Vector 9 9 9 else if v = 1 then Vector 9 9 9
                  else if v = 2 then Vector 0 0 0 else if v = 3 then Vector 1 0 0
                  else if v = 4 then Vector 1 0 1 else Vector 0 0 1),
      v_link_edges = (\<lambda>v. if v = 2 then [3, 0] else if v = 3 then [0, 1]
                           else if v = 4 then [1, 2] else if v = 5 then [2, 3] else []),
      e_v = (\<lambda>e. if e = 0 then (2, 3) else if e = 1 then (3, 4)
                  else if e = 2 then (4, 5) else (5, 2)),
      f_verts = (\<lambda>f. [2, 3, 4, 5]),
      f_edges = (\<lambda>f. [0, 1, 2, 3]),
      f_normal = (\<lambda>f. Vector 0 (-1) 0),
      f_select = (\<lambda>f. True),
      op_log = []\<rparr>"


definition cut_unit_quad :: bmesh where
  \<comment> \<open>the unit quad after \<^verbatim>\<open>split_quad(vertical=True, cuts=4)\<close> on the kernel of the spec\<close>
  "cut_unit_quad = snd (split_quad (spec_kernel (1/10000)) unit_quad True 4)"

section \<open>Properties\<close>

subsection \<open>split: the pass-through\<close>

text \<open>
  Claim C5. For every face, \<^verbatim>\<open>split\<close> with \<^verbatim>\<open>svertical=3\<close> and \<^verbatim>\<open>shorizontal=3\<close> returns the
  input face, and the mesh afterwards is the mesh before with the selection flag of that
  face cleared: no vertex moved, no topology changed, no kernel primitive invoked (the
  log is the one of the input mesh).
\<close>

theorem split_three_three_pass_through:
  "split k bm face 3 3 offx offy offz =
     (Inr (Some face), bm\<lparr>f_select := (f_select bm)(face := False)\<rparr>)"
  by (simp add: split_def)

theorem split_three_three_pass_through_witness:
  "split inert_kernel unit_quad 0 3 3 1 2 3 =
     (Inr (Some 0), unit_quad\<lparr>f_select := (f_select unit_quad)(0 := False)\<rparr>)"
  by (rule split_three_three_pass_through)




subsection \<open>split\_quad without a selection\<close>

text \<open>
  Claim C10. When no face of the mesh is selected the loop body never runs, the local
  \<^verbatim>\<open>res\<close> is never bound, and \<^verbatim>\<open>return res\<close> raises UnboundLocalError; the mesh is
  left as it was.
\<close>

theorem split_quad_no_selection:
  "filter (f_select bm) (bm_faces bm) = [] \<Longrightarrow>
   split_quad k bm vertical cuts = (Inl UnboundLocalError, bm)"
  by (simp add: split_quad_def)

theorem split_quad_no_selection_witness:
  "filter (f_select (unit_quad\<lparr>f_select := (\<lambda>f. False)\<rparr>)) (bm_faces (unit_quad\<lparr>f_select := (\<lambda>f. False)\<rparr>)) = []
   \<and> split_quad inert_kernel (unit_quad\<lparr>f_select := (\<lambda>f. False)\<rparr>) True 4 =
       (Inl UnboundLocalError, unit_quad\<lparr>f_select := (\<lambda>f. False)\<rparr>)"
proof -
  have h: "filter (f_select (unit_quad\<lparr>f_select := (\<lambda>f. False)\<rparr>))
             (bm_faces (unit_quad\<lparr>f_select := (\<lambda>f. False)\<rparr>)) = []"
    by simp
  from split_quad_no_selection [OF h, of inert_kernel True 4] h show ?thesis by blast
qed

subsection \<open>Classifying edges\<close>

text \<open>
  Claim C8. \<^verbatim>\<open>filter_vertical_edges\<close> returns, in their order, exactly the edges whose two
  vertices have the same coordinate after rounding to 4 decimal places, the coordinate
  being x when \<^verbatim>\<open>normal.z\<close> is non-zero, x again when \<^verbatim>\<open>normal.z\<close> is zero and
  \<^verbatim>\<open>normal.y\<close> is non-zero, and y otherwise.
\<close>

theorem filter_vertical_edges_axis_table:
  "filter_vertical_edges bm edges normal =
     filter (\<lambda>e. let c = (if vz normal \<noteq> 0 then vx else if vy normal \<noteq> 0 then vx else vy)
                 in py_round (c (v_co bm (fst (e_v bm e)))) 4 =
                    py_round (c (v_co bm (snd (e_v bm e)))) 4) edges"
  by (induction edges) (simp_all add: Let_def e_verts_def)

theorem filter_vertical_edges_axis_table_witness:
  "filter_vertical_edges unit_quad [0, 1, 2, 3] (Vector 0 (-1) 0) = [1, 3]
   \<and> filter_vertical_edges unit_quad [0, 1, 2, 3] (Vector 1 0 0) = [0, 1, 2, 3]"
  unfolding filter_vertical_edges_axis_table
  by (simp add: unit_quad_def quad_mesh_def py_round_def round_half_even_def)

text \<open>
  Claim C3, at two axis-aligned edges. Edge 0 of the lying rectangle runs from (0,0,0) to
  (1,0,0), along X: its y and z collapse and its x does not. Edge 1 runs from (1,0,0) to
  (1,2,0), along Y: its x and z collapse and its y does not. \<^verbatim>\<open>calc_edge_orient\<close> answers
  (0,0,1) for both, not (1,0,0) and (0,1,0). The first test,
  \<^verbatim>\<open>len(x_coords) == 1 or len(y_coords) == 1\<close>, takes every edge with a collapsed x or y,
  so the branches for (1,0,0) and (0,1,0) are never reached.
\<close>

theorem calc_edge_orient_axis_aligned_edges:
  "e_verts lying_rect 0 = [0, 1] \<and> e_verts lying_rect 1 = [1, 2]
   \<and> v_co lying_rect 0 = Vector 0 0 0 \<and> v_co lying_rect 1 = Vector 1 0 0
   \<and> v_co lying_rect 2 = Vector 1 2 0
   \<and> calc_edge_orient lying_rect 0 = Vector 0 0 1
   \<and> calc_edge_orient lying_rect 1 = Vector 0 0 1"
  by (simp add: calc_edge_orient_def lying_rect_def quad_mesh_def e_verts_def
      py_round_def round_half_even_def)

lemma calc_edge_orient_range:
  "calc_edge_orient bm e = Vector 0 0 1 \<or> calc_edge_orient bm e = Vector 0 0 0"
  by (simp add: calc_edge_orient_def Let_def)

subsection \<open>Finding a face by its vertices\<close>

lemma face_with_verts_loop_find:
  "face_with_verts_loop bm verts dflt faces =
     (case find (\<lambda>face. length (remdups (f_verts bm face @ verts)) = length verts) faces of
        None \<Rightarrow> dflt | Some face \<Rightarrow> Some face)"
  by (induction faces) simp_all

lemma length_remdups_append_eq:
  assumes "length (remdups (fs @ vs)) = length vs" and "distinct vs"
  shows "set fs \<subseteq> set vs"
proof -
  have "card (set fs \<union> set vs) = card (set vs)"
    using assms by (simp add: length_remdups_card_conv distinct_card)
  moreover have "set vs \<subseteq> set fs \<union> set vs" by blast
  ultimately have "set fs \<union> set vs = set vs"
    by (metis card_subset_eq List.finite_set finite_Un)
  then show ?thesis by blast
qed

text \<open>
  Claim C2, as amended. When \<^verbatim>\<open>face_with_verts\<close> returns a face rather than the default,
  that face is a face of the mesh for which the face's vertices and the given vertices
  together are as many distinct vertices as the given list is long. For a list without
  repetition this says that every vertex of the face is in the list: the face's vertex
  set is a subset of the given vertices, not a superset.
\<close>

theorem face_with_verts_found:
  assumes "face_with_verts bm verts dflt = Some face" and "dflt \<noteq> Some face"
  shows "face \<in> set (bm_faces bm)
       \<and> card (set (f_verts bm face) \<union> set verts) = length verts
       \<and> (distinct verts \<longrightarrow> set (f_verts bm face) \<subseteq> set verts)"
proof -
  let ?P = "\<lambda>face. length (remdups (f_verts bm face @ verts)) = length verts"
  from assms have "find ?P (bm_faces bm) = Some face"
    by (auto simp: face_with_verts_def face_with_verts_loop_find split: option.splits)
  then have mem: "face \<in> set (bm_faces bm)" and P: "?P face"
    by (auto simp: find_Some_iff)
  from P have "card (set (f_verts bm face) \<union> set verts) = length verts"
    by (simp add: length_remdups_card_conv)
  with mem P show ?thesis
    using length_remdups_append_eq by blast
qed

theorem face_with_verts_found_witness:
  "face_with_verts two_quads [1, 4, 5, 2] None = Some 1
   \<and> 1 \<in> set (bm_faces two_quads)
   \<and> set (f_verts two_quads 1) \<subseteq> set [1, 4, 5, 2]"
proof -
  have h: "face_with_verts two_quads [1, 4, 5, 2] None = Some 1"
    by (simp add: face_with_verts_def two_quads_def)
  have d: "distinct [1, 4, 5, 2 :: nat]" by simp
  from face_with_verts_found [OF h] d h show ?thesis by simp
qed

text \<open>
  The claim as stated fails on two quads side by side: for the vertices 0, 1, 2, 3 and
  4 the face returned is face 0, whose vertices are 0, 1, 2 and 3 and do not include
  vertex 4.
\<close>

theorem face_with_verts_superset_counterexample:
  "face_with_verts two_quads [0, 1, 2, 3, 4] None = Some 0
   \<and> \<not> set [0, 1, 2, 3, 4] \<subseteq> set (f_verts two_quads 0)"
  by (simp add: face_with_verts_def two_quads_def)

subsection \<open>Squaring a face\<close>

lemma py_max_Max: "xs \<noteq> [] \<Longrightarrow> py_max xs = Inr (Max (set xs))"
  by (cases xs) (simp_all add: Max.set_eq_fold [symmetric])

lemma py_min_Min: "xs \<noteq> [] \<Longrightarrow> py_min xs = Inr (Min (set xs))"
  by (cases xs) (simp_all add: Min.set_eq_fold [symmetric])

lemma shortest_last:
  assumes "es \<noteq> []"
  shows "filter (\<lambda>e. g e = Min (set (map g es))) es \<noteq> []"
    and "last (filter (\<lambda>e. g e = Min (set (map g es))) es) \<in> set es"
    and "g (last (filter (\<lambda>e. g e = Min (set (map g es))) es)) = Min (set (map g es))"
proof -
  let ?shortest = "filter (\<lambda>e. g e = Min (set (map g es))) es"
  have "Min (set (map g es)) \<in> set (map g es)"
    using assms by (intro Min_in) simp_all
  then obtain e where "e \<in> set es" "g e = Min (set (map g es))" by auto
  then have "e \<in> set ?shortest" by simp
  then show ne: "?shortest \<noteq> []"
    by (metis empty_iff empty_set)
  then have "last ?shortest \<in> set ?shortest"
    by (rule last_in_set)
  then show "last ?shortest \<in> set es" and "g (last ?shortest) = Min (set (map g es))"
    by simp_all
qed

lemma square_face_unfold:
  assumes "f_edges bm face \<noteq> []"
    and "Min (set (map (calc_length bm) (f_edges bm face))) = lo"
    and "Max (set (map (calc_length bm) (f_edges bm face))) = hi"
    and "lo \<noteq> 0"
  shows "square_face bm face =
     (let min_edge = last (filter (\<lambda>e. calc_length bm e = lo) (f_edges bm face));
          scale_vec =
            (if calc_edge_orient bm min_edge = Vector 1 0 0 then Vector (hi / lo) 1 1
             else if calc_edge_orient bm min_edge = Vector 0 1 0 then Vector 1 (hi / lo) 1
             else if calc_edge_orient bm min_edge = Vector 0 0 1 then Vector 1 1 (hi / lo)
             else Vector 1 1 1)
      in (Inr (hi / lo),
          bmesh_ops_scale bm scale_vec (f_verts bm face)
            (Translation (vneg (calc_center_median bm face)))))"
proof -
  have ne: "filter (\<lambda>e. calc_length bm e = lo) (f_edges bm face) \<noteq> []"
    using shortest_last(1) [OF assms(1), of "calc_length bm"] assms(2) by simp
  have "py_max (map (calc_length bm) (f_edges bm face)) = Inr hi"
    "py_min (map (calc_length bm) (f_edges bm face)) = Inr lo"
    using assms by (simp_all add: py_max_Max py_min_Min)
  then show ?thesis
    using ne assms(4) by (simp add: square_face_def Let_def)
qed

lemma square_face_result:
  assumes "f_edges bm face \<noteq> []"
  shows "fst (square_face bm face) =
     (if Min (set (map (calc_length bm) (f_edges bm face))) = 0 then Inl ZeroDivisionError
      else Inr (Max (set (map (calc_length bm) (f_edges bm face)))
                / Min (set (map (calc_length bm) (f_edges bm face)))))"
proof (cases "Min (set (map (calc_length bm) (f_edges bm face))) = 0")
  case True
  have "py_min (map (calc_length bm) (f_edges bm face)) = Inr 0"
    using assms True by (simp add: py_min_Min)
  then show ?thesis
    using assms True by (simp add: square_face_def py_max_Max)
next
  case False
  show ?thesis
    using False by (simp add: square_face_unfold [OF assms refl refl False] Let_def)
qed

lemma upright_rect_lengths:
  "map (calc_length upright_rect) (f_edges upright_rect 0) = [2, 1, 2, 1]"
  by (simp add: upright_rect_def quad_mesh_def calc_length_def vlength_def vsub_def)

lemma tilted_rect_lengths:
  "map (calc_length tilted_rect) (f_edges tilted_rect 0) = [1, 2, 1, 2]"
  by (simp add: tilted_rect_def quad_mesh_def calc_length_def vlength_def vsub_def power2_eq_square)

lemma pinched_quad_lengths:
  "map (calc_length pinched_quad) (f_edges pinched_quad 0) = [2, 1, 0, sqrt 5]"
  by (simp add: pinched_quad_def quad_mesh_def calc_length_def vlength_def vsub_def)

text \<open>
  Claim C6. For a face with at least one edge, \<^verbatim>\<open>square_face\<close> raises ZeroDivisionError
  exactly when the least edge length is 0; when it is not 0 the call returns the greatest
  edge length divided by the least, and no other error occurs (an edge of least length
  exists, so \<^verbatim>\<open>[-1]\<close> finds one).
\<close>

theorem square_face_division_error:
  assumes "f_edges bm face \<noteq> []"
  shows "(fst (square_face bm face) = Inl ZeroDivisionError
            \<longleftrightarrow> Min (set (map (calc_length bm) (f_edges bm face))) = 0)
       \<and> (Min (set (map (calc_length bm) (f_edges bm face))) \<noteq> 0 \<longrightarrow>
            fst (square_face bm face) =
              Inr (Max (set (map (calc_length bm) (f_edges bm face)))
                   / Min (set (map (calc_length bm) (f_edges bm face)))))"
  by (simp add: square_face_result [OF assms])

theorem square_face_division_error_witness:
  "f_edges upright_rect 0 \<noteq> []
   \<and> Min (set (map (calc_length upright_rect) (f_edges upright_rect 0))) \<noteq> 0
   \<and> fst (square_face upright_rect 0) = Inr 2
   \<and> f_edges pinched_quad 0 \<noteq> []
   \<and> Min (set (map (calc_length pinched_quad) (f_edges pinched_quad 0))) = 0
   \<and> fst (square_face pinched_quad 0) = Inl ZeroDivisionError"
proof -
  have e1: "f_edges upright_rect 0 \<noteq> []" by (simp add: upright_rect_def quad_mesh_def)
  have e2: "f_edges pinched_quad 0 \<noteq> []" by (simp add: pinched_quad_def quad_mesh_def)
  have m1: "Min (set (map (calc_length upright_rect) (f_edges upright_rect 0))) = 1"
    and x1: "Max (set (map (calc_length upright_rect) (f_edges upright_rect 0))) = 2"
    by (simp_all add: upright_rect_lengths)
  have m2: "Min (set (map (calc_length pinched_quad) (f_edges pinched_quad 0))) = 0"
    by (simp add: pinched_quad_lengths)
  from square_face_division_error [OF e1] square_face_division_error [OF e2] e1 e2 m1 x1 m2
  show ?thesis by simp
qed

lemma calc_edge_orient_same_x:
  "vx (v_co bm (fst (e_v bm e))) = vx (v_co bm (snd (e_v bm e))) \<Longrightarrow>
   calc_edge_orient bm e = Vector 0 0 1"
  by (simp add: calc_edge_orient_def e_verts_def Let_def)

lemma calc_edge_orient_diagonal:
  "py_round (vx (v_co bm (fst (e_v bm e)))) 1 \<noteq> py_round (vx (v_co bm (snd (e_v bm e)))) 1 \<Longrightarrow>
   py_round (vy (v_co bm (fst (e_v bm e)))) 1 \<noteq> py_round (vy (v_co bm (snd (e_v bm e)))) 1 \<Longrightarrow>
   calc_edge_orient bm e = Vector 0 0 0"
  by (simp add: calc_edge_orient_def e_verts_def Let_def)

lemma v_co_scale_identity:
  "v_co (bmesh_ops_scale bm (Vector 1 1 1) vs (Translation t)) = v_co bm"
  by (auto simp: bmesh_ops_scale_def vmul_def vadd_def vsub_def)

lemma calc_length_scaled_z:
  assumes "fst (e_v bm e) \<in> set vs" and "snd (e_v bm e) \<in> set vs"
  shows "calc_length (bmesh_ops_scale bm (Vector 1 1 c) vs (Translation t)) e =
     sqrt ((vx (v_co bm (fst (e_v bm e))) - vx (v_co bm (snd (e_v bm e))))\<^sup>2
         + (vy (v_co bm (fst (e_v bm e))) - vy (v_co bm (snd (e_v bm e))))\<^sup>2
         + (c * (vz (v_co bm (fst (e_v bm e))) - vz (v_co bm (snd (e_v bm e)))))\<^sup>2)"
  using assms
  by (simp add: calc_length_def bmesh_ops_scale_def vlength_def vsub_def vmul_def vadd_def algebra_simps)

text \<open>
  Claim C4, as amended. For every face whose least edge length is 1 and whose greatest
  is 2, \<^verbatim>\<open>square_face\<close> returns 2. When the edges of length 1 run along Z (their end
  points share x and y) and the edges of length 2 are level (their end points share z),
  every edge of the face has length 2 after the scale. When no edge of length 1 has its
  rounded x or its rounded y collapse, the orientation is the zero vector, the scale is
  the identity and no vertex moves.
\<close>

theorem square_face_one_by_two:
  assumes edges: "f_edges bm face \<noteq> []"
    and mn: "Min (set (map (calc_length bm) (f_edges bm face))) = 1"
    and mx: "Max (set (map (calc_length bm) (f_edges bm face))) = 2"
  shows "fst (square_face bm face) = Inr 2
    \<and> ((\<forall>e\<in>set (f_edges bm face).
           fst (e_v bm e) \<in> set (f_verts bm face) \<and> snd (e_v bm e) \<in> set (f_verts bm face)
           \<and> (calc_length bm e = 1
                 \<and> vx (v_co bm (fst (e_v bm e))) = vx (v_co bm (snd (e_v bm e)))
                 \<and> vy (v_co bm (fst (e_v bm e))) = vy (v_co bm (snd (e_v bm e)))
               \<or> calc_length bm e = 2
                 \<and> vz (v_co bm (fst (e_v bm e))) = vz (v_co bm (snd (e_v bm e)))))
          \<longrightarrow> (\<forall>e\<in>set (f_edges bm face). calc_length (snd (square_face bm face)) e = 2))
    \<and> ((\<forall>e\<in>set (f_edges bm face). calc_length bm e = 1 \<longrightarrow>
             py_round (vx (v_co bm (fst (e_v bm e)))) 1 \<noteq> py_round (vx (v_co bm (snd (e_v bm e)))) 1
           \<and> py_round (vy (v_co bm (fst (e_v bm e)))) 1 \<noteq> py_round (vy (v_co bm (snd (e_v bm e)))) 1)
          \<longrightarrow> v_co (snd (square_face bm face)) = v_co bm)"
proof -
  let ?min_edge = "last (filter (\<lambda>e. calc_length bm e = 1) (f_edges bm face))"
  have one: "(1::real) \<noteq> 0" by simp
  note sq = square_face_unfold [OF edges mn mx one]
  have m: "?min_edge \<in> set (f_edges bm face)" "calc_length bm ?min_edge = 1"
    using shortest_last(2,3) [OF edges, of "calc_length bm"] mn by simp_all
  have ratio: "fst (square_face bm face) = Inr 2"
    by (simp add: sq Let_def)
  have upright: "\<forall>e\<in>set (f_edges bm face). calc_length (snd (square_face bm face)) e = 2"
    if shape: "\<forall>e\<in>set (f_edges bm face).
           fst (e_v bm e) \<in> set (f_verts bm face) \<and> snd (e_v bm e) \<in> set (f_verts bm face)
           \<and> (calc_length bm e = 1
                 \<and> vx (v_co bm (fst (e_v bm e))) = vx (v_co bm (snd (e_v bm e)))
                 \<and> vy (v_co bm (fst (e_v bm e))) = vy (v_co bm (snd (e_v bm e)))
               \<or> calc_length bm e = 2
                 \<and> vz (v_co bm (fst (e_v bm e))) = vz (v_co bm (snd (e_v bm e))))"
  proof
    fix e assume e: "e \<in> set (f_edges bm face)"
    let ?a = "v_co bm (fst (e_v bm e))" and ?b = "v_co bm (snd (e_v bm e))"
    from m shape have "vx (v_co bm (fst (e_v bm ?min_edge))) = vx (v_co bm (snd (e_v bm ?min_edge)))"
      by fastforce
    then have "calc_edge_orient bm ?min_edge = Vector 0 0 1"
      by (rule calc_edge_orient_same_x)
    then have scaled: "snd (square_face bm face) =
        bmesh_ops_scale bm (Vector 1 1 2) (f_verts bm face)
          (Translation (vneg (calc_center_median bm face)))"
      by (simp add: sq Let_def)
    from e shape have in_vs: "fst (e_v bm e) \<in> set (f_verts bm face)"
        "snd (e_v bm e) \<in> set (f_verts bm face)"
      by simp_all
    have len: "calc_length (snd (square_face bm face)) e =
        sqrt ((vx ?a - vx ?b)\<^sup>2 + (vy ?a - vy ?b)\<^sup>2 + (2 * (vz ?a - vz ?b))\<^sup>2)"
      by (simp only: scaled calc_length_scaled_z [OF in_vs])
    from e shape consider
        (up) "calc_length bm e = 1" "vx ?a = vx ?b" "vy ?a = vy ?b"
      | (flat) "calc_length bm e = 2" "vz ?a = vz ?b"
      by blast
    then show "calc_length (snd (square_face bm face)) e = 2"
    proof cases
      case up
      then have "\<bar>vz ?a - vz ?b\<bar> = 1"
        by (simp add: calc_length_def vlength_def vsub_def)
      then have "sqrt ((2 * (vz ?a - vz ?b))\<^sup>2) = 2"
        by (simp add: abs_mult)
      with up len show ?thesis by simp
    next
      case flat
      then show ?thesis
        using len by (simp add: calc_length_def vlength_def vsub_def)
    qed
  qed
  have diagonal: "v_co (snd (square_face bm face)) = v_co bm"
    if diag: "\<forall>e\<in>set (f_edges bm face). calc_length bm e = 1 \<longrightarrow>
             py_round (vx (v_co bm (fst (e_v bm e)))) 1 \<noteq> py_round (vx (v_co bm (snd (e_v bm e)))) 1
           \<and> py_round (vy (v_co bm (fst (e_v bm e)))) 1 \<noteq> py_round (vy (v_co bm (snd (e_v bm e)))) 1"
  proof -
    from m diag have "calc_edge_orient bm ?min_edge = Vector 0 0 0"
      by (intro calc_edge_orient_diagonal) blast+
    then have "snd (square_face bm face) =
        bmesh_ops_scale bm (Vector 1 1 1) (f_verts bm face)
          (Translation (vneg (calc_center_median bm face)))"
      by (simp add: sq Let_def)
    then show ?thesis
      by (simp only: v_co_scale_identity)
  qed
  from ratio upright diagonal show ?thesis by blast
qed

lemma tilted_rect_orient: "calc_edge_orient tilted_rect 2 = Vector 0 0 0"
  by (simp add: calc_edge_orient_def tilted_rect_def quad_mesh_def e_verts_def
      py_round_def round_half_even_def)

theorem square_face_one_by_two_witness:
  "map (calc_length upright_rect) (f_edges upright_rect 0) = [2, 1, 2, 1]
   \<and> fst (square_face upright_rect 0) = Inr 2
   \<and> map (calc_length (snd (square_face upright_rect 0))) (f_edges upright_rect 0) = [2, 2, 2, 2]
   \<and> map (calc_length tilted_rect) (f_edges tilted_rect 0) = [1, 2, 1, 2]
   \<and> fst (square_face tilted_rect 0) = Inr 2
   \<and> v_co (snd (square_face tilted_rect 0)) = v_co tilted_rect"
proof -
  have e1: "f_edges upright_rect 0 \<noteq> []" and e2: "f_edges tilted_rect 0 \<noteq> []"
    by (simp_all add: upright_rect_def tilted_rect_def quad_mesh_def)
  have m1: "Min (set (map (calc_length upright_rect) (f_edges upright_rect 0))) = 1"
    and x1: "Max (set (map (calc_length upright_rect) (f_edges upright_rect 0))) = 2"
    by (simp_all add: upright_rect_lengths)
  have m2: "Min (set (map (calc_length tilted_rect) (f_edges tilted_rect 0))) = 1"
    and x2: "Max (set (map (calc_length tilted_rect) (f_edges tilted_rect 0))) = 2"
    by (simp_all add: tilted_rect_lengths)
  have edges1: "f_edges upright_rect 0 = [0, 1, 2, 3]"
    by (simp add: upright_rect_def quad_mesh_def)
  have lens1: "calc_length upright_rect 0 = 2" "calc_length upright_rect (Suc 0) = 1"
      "calc_length upright_rect 2 = 2" "calc_length upright_rect 3 = 1"
    using upright_rect_lengths by (simp_all add: edges1)
  have shape: "\<forall>e\<in>set (f_edges upright_rect 0).
          fst (e_v upright_rect e) \<in> set (f_verts upright_rect 0)
        \<and> snd (e_v upright_rect e) \<in> set (f_verts upright_rect 0)
        \<and> (calc_length upright_rect e = 1
             \<and> vx (v_co upright_rect (fst (e_v upright_rect e))) = vx (v_co upright_rect (snd (e_v upright_rect e)))
             \<and> vy (v_co upright_rect (fst (e_v upright_rect e))) = vy (v_co upright_rect (snd (e_v upright_rect e)))
           \<or> calc_length upright_rect e = 2
             \<and> vz (v_co upright_rect (fst (e_v upright_rect e))) = vz (v_co upright_rect (snd (e_v upright_rect e))))"
    by (simp add: edges1 lens1) (simp add: upright_rect_def quad_mesh_def)
  have edges2: "f_edges tilted_rect 0 = [0, 1, 2, 3]"
    by (simp add: tilted_rect_def quad_mesh_def)
  have lens2: "calc_length tilted_rect 0 = 1" "calc_length tilted_rect (Suc 0) = 2"
      "calc_length tilted_rect 2 = 1" "calc_length tilted_rect 3 = 2"
    using tilted_rect_lengths by (simp_all add: edges2)
  have diag: "\<forall>e\<in>set (f_edges tilted_rect 0). calc_length tilted_rect e = 1 \<longrightarrow>
        py_round (vx (v_co tilted_rect (fst (e_v tilted_rect e)))) 1
          \<noteq> py_round (vx (v_co tilted_rect (snd (e_v tilted_rect e)))) 1
      \<and> py_round (vy (v_co tilted_rect (fst (e_v tilted_rect e)))) 1
          \<noteq> py_round (vy (v_co tilted_rect (snd (e_v tilted_rect e)))) 1"
    by (simp add: edges2 lens2)
       (simp add: tilted_rect_def quad_mesh_def py_round_def round_half_even_def)
  from square_face_one_by_two [OF e1 m1 x1] shape
  have "fst (square_face upright_rect 0) = Inr 2"
    "\<forall>e\<in>set (f_edges upright_rect 0). calc_length (snd (square_face upright_rect 0)) e = 2"
    by blast+
  moreover from square_face_one_by_two [OF e2 m2 x2] diag
  have "fst (square_face tilted_rect 0) = Inr 2"
    "v_co (snd (square_face tilted_rect 0)) = v_co tilted_rect"
    by blast+
  ultimately show ?thesis
    using upright_rect_lengths tilted_rect_lengths by (simp add: edges1)
qed

text \<open>
  The claim as stated fails on a 1 by 2 rectangle turned about Z: its edges measure 1, 2,
  1 and 2, \<^verbatim>\<open>square_face\<close> returns 2, and the edges measure 1, 2, 1 and 2 afterwards.
\<close>

theorem square_face_tilted_rectangle_counterexample:
  "map (calc_length tilted_rect) (f_edges tilted_rect 0) = [1, 2, 1, 2]
   \<and> fst (square_face tilted_rect 0) = Inr 2
   \<and> map (calc_length (snd (square_face tilted_rect 0))) (f_edges tilted_rect 0) = [1, 2, 1, 2]"
proof -
  have edges: "f_edges tilted_rect 0 = [0, 1, 2, 3]"
    by (simp add: tilted_rect_def quad_mesh_def)
  have lens: "calc_length tilted_rect 0 = 1" "calc_length tilted_rect (Suc 0) = 2"
      "calc_length tilted_rect 2 = 1" "calc_length tilted_rect 3 = 2"
    using tilted_rect_lengths by (simp_all add: edges)
  have sq: "square_face tilted_rect 0 =
      (Inr 2, bmesh_ops_scale tilted_rect (Vector 1 1 1) (f_verts tilted_rect 0)
                (Translation (vneg (calc_center_median tilted_rect 0))))"
    by (simp add: square_face_def edges lens tilted_rect_orient)
  have "calc_length (snd (square_face tilted_rect 0)) e = calc_length tilted_rect e" for e
    by (simp add: sq calc_length_def v_co_scale_identity) (simp add: bmesh_ops_scale_def)
  then have "calc_length (snd (square_face tilted_rect 0)) = calc_length tilted_rect"
    by (rule ext)
  with tilted_rect_lengths sq show ?thesis by simp
qed

text \<open>
  A rectangle whose short edges run along X shows what the first test of
  \<^verbatim>\<open>calc_edge_orient\<close> does to \<^verbatim>\<open>square_face\<close>: the y of the shortest edge collapses, the
  orientation is (0,0,1), the face is scaled along Z, where it has no extent, and its
  edges measure 1, 2, 1 and 2 as before.
\<close>

lemma lying_rect_lengths:
  "map (calc_length lying_rect) (f_edges lying_rect 0) = [1, 2, 1, 2]"
  by (simp add: lying_rect_def quad_mesh_def calc_length_def vlength_def vsub_def)

lemma lying_rect_orient: "calc_edge_orient lying_rect 2 = Vector 0 0 1"
  by (simp add: calc_edge_orient_def lying_rect_def quad_mesh_def e_verts_def
      py_round_def round_half_even_def)

lemma square_face_lying_rect:
  "fst (square_face lying_rect 0) = Inr 2
   \<and> op_log (snd (square_face lying_rect 0)) =
       [Scale (Vector 1 1 2) [0, 1, 2, 3] (Translation (Vector (-1/2) (-1) 0))]
   \<and> map (calc_length (snd (square_face lying_rect 0))) (f_edges lying_rect 0) = [1, 2, 1, 2]"
proof -
  have edges: "f_edges lying_rect 0 = [0, 1, 2, 3]"
    by (simp add: lying_rect_def quad_mesh_def)
  have lens: "calc_length lying_rect 0 = 1" "calc_length lying_rect (Suc 0) = 2"
      "calc_length lying_rect 2 = 1" "calc_length lying_rect 3 = 2"
    using lying_rect_lengths by (simp_all add: edges)
  have median: "calc_center_median lying_rect 0 = Vector (1/2) 1 0"
    by (simp add: calc_center_median_def lying_rect_def quad_mesh_def vadd_def vdiv_def)
  have sq: "square_face lying_rect 0 =
      (Inr 2, bmesh_ops_scale lying_rect (Vector 1 1 2) (f_verts lying_rect 0)
                (Translation (Vector (-1/2) (-1) 0)))"
    by (simp add: square_face_def edges lens lying_rect_orient median vneg_def)
  have verts: "f_verts lying_rect 0 = [0, 1, 2, 3]"
    by (simp add: lying_rect_def quad_mesh_def)
  have "map (calc_length (bmesh_ops_scale lying_rect (Vector 1 1 2) [0, 1, 2, 3]
                (Translation (Vector (-1/2) (-1) 0)))) [0, 1, 2, 3] = [1, 2, 1, 2]"
    by (simp add: bmesh_ops_scale_def calc_length_def vlength_def vsub_def vmul_def vadd_def
        lying_rect_def quad_mesh_def)
  then show ?thesis
    by (simp add: sq edges verts bmesh_ops_scale_def) (simp add: lying_rect_def quad_mesh_def)
qed

subsection \<open>Subdividing the selected quads\<close>

lemma split_quad_loop_nil: "split_quad_loop k vertical cuts [] s = s"
  by (cases s) simp

lemma split_quad_loop_append:
  "split_quad_loop k vertical cuts (xs @ ys) s =
     split_quad_loop k vertical cuts ys (split_quad_loop k vertical cuts xs s)"
proof (induction xs arbitrary: s)
  case Nil
  show ?case by (cases s) simp
next
  case (Cons x xs)
  show ?case by (cases s) (simp add: Cons.IH Let_def split: prod.splits)
qed

lemma split_quad_loop_single:
  "split_quad_loop k vertical cuts [face] s =
     (let bm = fst s;
          e = (if vertical then filter_horizontal_edges bm (f_edges bm face) (f_normal bm face)
               else filter_vertical_edges bm (f_edges bm face) (f_normal bm face))
      in (snd (bmesh_ops_subdivide_edges k bm e cuts),
          Some (fst (bmesh_ops_subdivide_edges k bm e cuts))))"
  by (cases s) (simp add: Let_def split: prod.splits)

lemma op_log_subdivide:
  "op_log (snd (bmesh_ops_subdivide_edges k bm e cuts)) = op_log bm @ [SubdivideEdges e cuts]"
  by (simp add: bmesh_ops_subdivide_edges_def split: prod.splits)

lemma split_quad_loop_log:
  "op_log (fst (split_quad_loop k vertical cuts faces (bm, None))) =
     op_log bm @
     map (\<lambda>i. let bm0 = fst (split_quad_loop k vertical cuts (take i faces) (bm, None));
                  face = faces ! i
              in SubdivideEdges
                   (if vertical then filter_horizontal_edges bm0 (f_edges bm0 face) (f_normal bm0 face)
                    else filter_vertical_edges bm0 (f_edges bm0 face) (f_normal bm0 face))
                   cuts)
         [0..<length faces]"
proof (induction faces rule: rev_induct)
  case Nil
  show ?case by simp
next
  case (snoc face faces)
  show ?case
    by (simp add: split_quad_loop_append split_quad_loop_single split_quad_loop_nil Let_def
        op_log_subdivide snoc.IH nth_append)
qed

lemma split_quad_loop_step:
  "split_quad_loop k vertical cuts (take (Suc i) sel) s =
     split_quad_loop k vertical cuts [sel ! i] (split_quad_loop k vertical cuts (take i sel) s)"
  if "i < length sel"
  using that by (simp add: take_Suc_conv_app_nth split_quad_loop_append)

text \<open>The subdivide of the spec: what a call adds, and what becomes of each edge.\<close>

lemma split_edge_counts:
  "length (bm_edges (fst (split_edge bm e c))) = length (bm_edges bm) + c"
  "length (bm_verts (fst (split_edge bm e c))) = length (bm_verts bm) + c"
  "length (fst (snd (split_edge bm e c))) = c"
  by (simp_all add: split_edge_def Let_def)

lemma split_edges_counts:
  "length (bm_edges (fst (split_edges es c (bm, nvs, nes)))) = length (bm_edges bm) + c * length es
   \<and> length (bm_verts (fst (split_edges es c (bm, nvs, nes)))) = length (bm_verts bm) + c * length es
   \<and> length (fst (snd (split_edges es c (bm, nvs, nes)))) = length nvs + c * length es"
proof (induction es arbitrary: bm nvs nes)
  case Nil
  show ?case by simp
next
  case (Cons e es)
  show ?case
    by (simp add: Let_def Cons.IH split_edge_counts)
qed

lemma as_verts_inner: "as_verts (filter_geom (map GVert vs @ map GEdge es) BMVert) = vs"
proof -
  have a: "as_verts (filter_geom (map GVert vs @ xs) BMVert) = vs @ as_verts (filter_geom xs BMVert)" for xs
    by (induction vs) (simp_all add: filter_geom_def)
  have b: "as_verts (filter_geom (map GEdge es) BMVert) = []"
    by (induction es) (simp_all add: filter_geom_def)
  show ?thesis by (simp add: a b)
qed

lemma subdivide_counts:
  "length (bm_edges (snd (subdivide bm edges cuts))) =
     length (bm_edges bm) + nat cuts * length (remdups edges)"
  "length (bm_verts (snd (subdivide bm edges cuts))) =
     length (bm_verts bm) + nat cuts * length (remdups edges)"
  "length (as_verts (filter_geom (geom_inner (fst (subdivide bm edges cuts))) BMVert)) =
     nat cuts * length (remdups edges)"
  using split_edges_counts [of "remdups edges" "nat cuts" bm "[]" "[]"]
  by (simp_all add: subdivide_def Let_def as_verts_inner)

lemma bmesh_ops_subdivide_edges_kernel:
  "bmesh_ops_subdivide_edges k bm es cuts =
     (fst (subdivide_edges k bm es cuts),
      (snd (subdivide_edges k bm es cuts))\<lparr>op_log := op_log bm @ [SubdivideEdges es cuts]\<rparr>)"
  by (simp add: bmesh_ops_subdivide_edges_def case_prod_unfold Let_def)

lemma spec_kernel_subdivide:
  "bm_edges (snd (bmesh_ops_subdivide_edges (spec_kernel eps) bm es cuts)) = bm_edges (snd (subdivide bm es cuts))"
  "bm_verts (snd (bmesh_ops_subdivide_edges (spec_kernel eps) bm es cuts)) = bm_verts (snd (subdivide bm es cuts))"
  "fst (bmesh_ops_subdivide_edges (spec_kernel eps) bm es cuts) = fst (subdivide bm es cuts)"
  by (simp_all add: bmesh_ops_subdivide_edges_kernel spec_kernel_def)

lemma spec_kernel_subdivide_edges: "subdivide_edges (spec_kernel eps) = subdivide"
  by (simp add: spec_kernel_def)


lemma even_chain_nth:
  "even_chain bm pa pb vs segs \<longleftrightarrow>
     (length vs = length segs + 1 \<and> distinct segs
      \<and> (\<forall>i<length segs. e_v bm (segs ! i) = (vs ! i, vs ! Suc i))
      \<and> (\<forall>i<length vs. v_co bm (vs ! i) = lerp pa pb (real i / real (length segs))))"
proof (cases "length vs = length segs + 1")
  case False
  then show ?thesis by (simp add: even_chain_def)
next
  case True
  have z: "(map (e_v bm) segs = zip (butlast vs) (tl vs)) \<longleftrightarrow>
      (\<forall>i<length segs. e_v bm (segs ! i) = (vs ! i, vs ! Suc i))"
    using True by (subst list_eq_iff_nth_eq) (auto simp: nth_butlast nth_tl)
  have c: "(map (v_co bm) vs = map (\<lambda>i. lerp pa pb (real i / real (length segs))) [0..<length vs]) \<longleftrightarrow>
      (\<forall>i<length vs. v_co bm (vs ! i) = lerp pa pb (real i / real (length segs)))"
    by (subst list_eq_iff_nth_eq) auto
  show ?thesis
    unfolding even_chain_def z c by (rule refl)
qed

lemma fold_max_ge: "n \<le> fold (\<lambda>i n. max (Suc i) n) ids n"
proof (induction ids arbitrary: n)
  case Nil
  show ?case by simp
next
  case (Cons a ids)
  have "n \<le> max (Suc a) n" by simp
  also have "\<dots> \<le> fold (\<lambda>i n. max (Suc i) n) ids (max (Suc a) n)"
    by (rule Cons.IH)
  finally show ?case by simp
qed

lemma fresh_gt_aux: "x \<in> set ids \<Longrightarrow> x < fold (\<lambda>i n. max (Suc i) n) ids n"
proof (induction ids arbitrary: n)
  case Nil
  then show ?case by simp
next
  case (Cons a ids)
  show ?case
  proof (cases "x = a")
    case True
    have "max (Suc a) n \<le> fold (\<lambda>i n. max (Suc i) n) ids (max (Suc a) n)"
      by (rule fold_max_ge)
    with True show ?thesis by simp
  next
    case False
    with Cons show ?thesis by simp
  qed
qed

lemma fresh_gt: "x \<in> set ids \<Longrightarrow> x < fresh ids"
  by (simp add: fresh_def fresh_gt_aux)

lemma lerp_ends: "lerp pa pb 0 = pa" "lerp pa pb 1 = pb"
  by (cases pa; cases pb; simp add: lerp_def vadd_def vmul_def vsub_def)+

lemma split_edge_fields:
  "bm_verts (fst (split_edge bm e c)) = bm_verts bm @ map (\<lambda>i. fresh (bm_verts bm) + i) [0..<c]"
  "bm_edges (fst (split_edge bm e c)) = bm_edges bm @ map (\<lambda>i. fresh (bm_edges bm) + i) [0..<c]"
  "bm_faces (fst (split_edge bm e c)) = bm_faces bm"
  "f_edges (fst (split_edge bm e c)) f =
     concat (map (\<lambda>x. if x = e then e # map (\<lambda>i. fresh (bm_edges bm) + i) [0..<c] else [x]) (f_edges bm f))"
  by (simp_all add: split_edge_def Let_def)

lemma split_edge_e_v_old:
  "x \<in> set (bm_edges bm) \<Longrightarrow> x \<noteq> e \<Longrightarrow> e_v (fst (split_edge bm e c)) x = e_v bm x"
  using fresh_gt [of x "bm_edges bm"] by (simp add: split_edge_def Let_def)

lemma split_edge_v_co_old:
  "v \<in> set (bm_verts bm) \<Longrightarrow> v_co (fst (split_edge bm e c)) v = v_co bm v"
  using fresh_gt [of v "bm_verts bm"] by (simp add: split_edge_def Let_def)

lemma split_edge_chain:
  assumes e: "e \<in> set (bm_edges bm)"
    and a: "fst (e_v bm e) \<in> set (bm_verts bm)" and b: "snd (e_v bm e) \<in> set (bm_verts bm)"
  shows "even_chain (fst (split_edge bm e c)) (v_co bm (fst (e_v bm e))) (v_co bm (snd (e_v bm e)))
           (fst (e_v bm e) # map (\<lambda>i. fresh (bm_verts bm) + i) [0..<c] @ [snd (e_v bm e)])
           (e # map (\<lambda>i. fresh (bm_edges bm) + i) [0..<c])"
proof -
  let ?nv = "fresh (bm_verts bm)" and ?ne = "fresh (bm_edges bm)"
  let ?a = "fst (e_v bm e)" and ?b = "snd (e_v bm e)"
  let ?vs = "?a # map (\<lambda>i. ?nv + i) [0..<c] @ [?b]"
  let ?segs = "e # map (\<lambda>i. ?ne + i) [0..<c]"
  let ?bm' = "fst (split_edge bm e c)"
  have elt: "e < ?ne" using e by (rule fresh_gt)
  have alt: "?a < ?nv" using a by (rule fresh_gt)
  have blt: "?b < ?nv" using b by (rule fresh_gt)
  have d: "distinct ?segs"
    using elt by (auto simp: distinct_map inj_on_def)
  have ev: "e_v ?bm' (?segs ! i) = (?vs ! i, ?vs ! Suc i)" if "i < length ?segs" for i
  proof (cases i)
    case 0
    then show ?thesis by (simp add: split_edge_def Let_def)
  next
    case (Suc j)
    with that have j: "j < c" by simp
    then have "?segs ! i = ?ne + j" using Suc by simp
    moreover have "?ne + j \<noteq> e" using elt by simp
    ultimately show ?thesis
      using j Suc by (simp add: split_edge_def Let_def)
  qed
  have co: "v_co ?bm' (?vs ! i) = lerp (v_co bm ?a) (v_co bm ?b) (real i / real (length ?segs))"
    if "i < length ?vs" for i
  proof -
    have "i = 0 \<or> (\<exists>j. i = Suc j \<and> j < c) \<or> i = Suc c"
      using that by (cases i) auto
    then consider (first) "i = 0" | (mid) j where "i = Suc j" "j < c" | (last) "i = Suc c"
      by blast
    then show ?thesis
    proof cases
      case first
      then show ?thesis
        using alt by (simp add: split_edge_def Let_def lerp_ends)
    next
      case mid
      then have "?vs ! i = ?nv + j" by (simp add: nth_append)
      then show ?thesis
        using mid by (simp add: split_edge_def Let_def)
    next
      case last
      then have "?vs ! i = ?b" by (simp add: nth_append)
      then show ?thesis
        using last blt by (simp add: split_edge_def Let_def lerp_ends)
    qed
  qed
  show ?thesis
    unfolding even_chain_nth using d ev co by simp
qed

lemma even_chain_cong:
  assumes "even_chain bm pa pb vs segs"
    and "\<And>x. x \<in> set segs \<Longrightarrow> e_v bm' x = e_v bm x"
    and "\<And>v. v \<in> set vs \<Longrightarrow> v_co bm' v = v_co bm v"
  shows "even_chain bm' pa pb vs segs"
  using assms unfolding even_chain_nth by simp

lemma split_edge_well_formed:
  assumes wf: "well_formed bm" and e: "e \<in> set (bm_edges bm)"
  shows "well_formed (fst (split_edge bm e c))"
proof -
  let ?bm' = "fst (split_edge bm e c)"
  let ?nv = "fresh (bm_verts bm)" and ?ne = "fresh (bm_edges bm)"
  have faces: "set (f_edges ?bm' f) \<subseteq> set (bm_edges ?bm')" if "f \<in> set (bm_faces ?bm')" for f
  proof -
    from that wf have "set (f_edges bm f) \<subseteq> set (bm_edges bm)"
      by (simp add: well_formed_def split_edge_fields)
    with e show ?thesis
      by (auto simp: split_edge_fields split: if_splits)
  qed
  have ends: "fst (e_v ?bm' x) \<in> set (bm_verts ?bm') \<and> snd (e_v ?bm' x) \<in> set (bm_verts ?bm')"
    if "x \<in> set (bm_edges ?bm')" for x
  proof -
    from wf e have ab: "fst (e_v bm e) \<in> set (bm_verts bm)" "snd (e_v bm e) \<in> set (bm_verts bm)"
      by (simp_all add: well_formed_def)
    have ch: "even_chain ?bm' (v_co bm (fst (e_v bm e))) (v_co bm (snd (e_v bm e)))
           (fst (e_v bm e) # map (\<lambda>i. ?nv + i) [0..<c] @ [snd (e_v bm e)])
           (e # map (\<lambda>i. ?ne + i) [0..<c])"
      using e ab by (rule split_edge_chain)
    let ?vs = "fst (e_v bm e) # map (\<lambda>i. ?nv + i) [0..<c] @ [snd (e_v bm e)]"
    let ?segs = "e # map (\<lambda>i. ?ne + i) [0..<c]"
    have vs_sub: "set ?vs \<subseteq> set (bm_verts ?bm')"
      using ab by (auto simp: split_edge_fields)
    show ?thesis
    proof (cases "x \<in> set ?segs")
      case True
      then obtain i where i: "i < length ?segs" "?segs ! i = x"
        by (meson in_set_conv_nth)
      with ch have "e_v ?bm' x = (?vs ! i, ?vs ! Suc i)"
        unfolding even_chain_nth by blast
      moreover have "?vs ! i \<in> set ?vs"
        by (rule nth_mem) (use i(1) in simp)
      moreover have "?vs ! Suc i \<in> set ?vs"
        by (rule nth_mem) (use i(1) in simp)
      ultimately show ?thesis using vs_sub by auto
    next
      case False
      with that have old: "x \<in> set (bm_edges bm)" "x \<noteq> e"
        by (auto simp: split_edge_fields)
      then have "e_v ?bm' x = e_v bm x" by (rule split_edge_e_v_old)
      with old wf show ?thesis
        by (auto simp: well_formed_def split_edge_fields)
    qed
  qed
  from faces ends show ?thesis
    unfolding well_formed_def by blast
qed

lemma split_edges_props:
  assumes "well_formed bm" and "distinct es" and "set es \<subseteq> set (bm_edges bm)"
  shows "well_formed (fst (split_edges es c (bm, nvs, nes)))
     \<and> set (bm_edges bm) \<subseteq> set (bm_edges (fst (split_edges es c (bm, nvs, nes))))
     \<and> set (bm_verts bm) \<subseteq> set (bm_verts (fst (split_edges es c (bm, nvs, nes))))
     \<and> bm_faces (fst (split_edges es c (bm, nvs, nes))) = bm_faces bm
     \<and> (\<forall>x\<in>set (bm_edges bm). x \<notin> set es \<longrightarrow>
            e_v (fst (split_edges es c (bm, nvs, nes))) x = e_v bm x)
     \<and> (\<forall>v\<in>set (bm_verts bm). v_co (fst (split_edges es c (bm, nvs, nes))) v = v_co bm v)
     \<and> (\<forall>x\<in>set es. \<exists>vs segs.
            length segs = c + 1 \<and> hd segs = x
            \<and> hd vs = fst (e_v bm x) \<and> last vs = snd (e_v bm x)
            \<and> set segs \<subseteq> set (bm_edges (fst (split_edges es c (bm, nvs, nes))))
            \<and> even_chain (fst (split_edges es c (bm, nvs, nes)))
                  (v_co bm (fst (e_v bm x))) (v_co bm (snd (e_v bm x))) vs segs)"
  using assms
proof (induction es arbitrary: bm nvs nes)
  case Nil
  then show ?case by simp
next
  case (Cons e rest)
  let ?bm1 = "fst (split_edge bm e c)"
  let ?nvs1 = "nvs @ fst (snd (split_edge bm e c))"
  let ?nes1 = "nes @ snd (snd (split_edge bm e c))"
  let ?bm' = "fst (split_edges rest c (?bm1, ?nvs1, ?nes1))"
  have res: "fst (split_edges (e # rest) c (bm, nvs, nes)) = ?bm'"
    by (simp add: Let_def)
  from Cons.prems have e: "e \<in> set (bm_edges bm)" and e_rest: "e \<notin> set rest"
    and d: "distinct rest" and sub: "set rest \<subseteq> set (bm_edges bm)"
    by simp_all
  from Cons.prems(1) e have ab: "fst (e_v bm e) \<in> set (bm_verts bm)"
      "snd (e_v bm e) \<in> set (bm_verts bm)"
    by (simp_all add: well_formed_def)
  have wf1: "well_formed ?bm1"
    using Cons.prems(1) e by (rule split_edge_well_formed)
  have edges1: "set (bm_edges bm) \<subseteq> set (bm_edges ?bm1)"
    and verts1: "set (bm_verts bm) \<subseteq> set (bm_verts ?bm1)"
    by (auto simp: split_edge_fields)
  from sub edges1 have sub1: "set rest \<subseteq> set (bm_edges ?bm1)" by blast
  note IH = Cons.IH [OF wf1 d sub1, of ?nvs1 ?nes1]
  from IH have wf': "well_formed ?bm'"
    and edges': "set (bm_edges ?bm1) \<subseteq> set (bm_edges ?bm')"
    and verts': "set (bm_verts ?bm1) \<subseteq> set (bm_verts ?bm')"
    and faces': "bm_faces ?bm' = bm_faces ?bm1"
    and ev': "\<And>x. x \<in> set (bm_edges ?bm1) \<Longrightarrow> x \<notin> set rest \<Longrightarrow> e_v ?bm' x = e_v ?bm1 x"
    and co': "\<And>v. v \<in> set (bm_verts ?bm1) \<Longrightarrow> v_co ?bm' v = v_co ?bm1 v"
    and ch': "\<And>x. x \<in> set rest \<Longrightarrow> \<exists>vs segs.
            length segs = c + 1 \<and> hd segs = x
            \<and> hd vs = fst (e_v ?bm1 x) \<and> last vs = snd (e_v ?bm1 x)
            \<and> set segs \<subseteq> set (bm_edges ?bm')
            \<and> even_chain ?bm' (v_co ?bm1 (fst (e_v ?bm1 x))) (v_co ?bm1 (snd (e_v ?bm1 x))) vs segs"
    by blast+
  have c_ev: "e_v ?bm' x = e_v bm x" if "x \<in> set (bm_edges bm)" "x \<notin> set (e # rest)" for x
  proof -
    from that edges1 have "e_v ?bm' x = e_v ?bm1 x" by (intro ev') auto
    also from that have "\<dots> = e_v bm x" by (intro split_edge_e_v_old) auto
    finally show ?thesis .
  qed
  have c_co: "v_co ?bm' v = v_co bm v" if "v \<in> set (bm_verts bm)" for v
  proof -
    from that verts1 have "v_co ?bm' v = v_co ?bm1 v" by (intro co') auto
    also from that have "\<dots> = v_co bm v" by (rule split_edge_v_co_old)
    finally show ?thesis .
  qed
  have c_ch: "\<exists>vs segs.
            length segs = c + 1 \<and> hd segs = x
            \<and> hd vs = fst (e_v bm x) \<and> last vs = snd (e_v bm x)
            \<and> set segs \<subseteq> set (bm_edges ?bm')
            \<and> even_chain ?bm' (v_co bm (fst (e_v bm x))) (v_co bm (snd (e_v bm x))) vs segs"
    if x: "x \<in> set (e # rest)" for x
  proof (cases "x = e")
    case True
    let ?vs = "fst (e_v bm e) # map (\<lambda>i. fresh (bm_verts bm) + i) [0..<c] @ [snd (e_v bm e)]"
    let ?segs = "e # map (\<lambda>i. fresh (bm_edges bm) + i) [0..<c]"
    have ch1: "even_chain ?bm1 (v_co bm (fst (e_v bm e))) (v_co bm (snd (e_v bm e))) ?vs ?segs"
      using e ab by (rule split_edge_chain)
    have segs1: "set ?segs \<subseteq> set (bm_edges ?bm1)"
      using e by (auto simp: split_edge_fields)
    have vs1: "set ?vs \<subseteq> set (bm_verts ?bm1)"
      using ab by (auto simp: split_edge_fields)
    have not_rest: "y \<notin> set rest" if "y \<in> set ?segs" for y
    proof (cases "y = e")
      case True
      with e_rest show ?thesis by simp
    next
      case False
      with that have "fresh (bm_edges bm) \<le> y" by auto
      then have "y \<notin> set (bm_edges bm)"
        using fresh_gt [of y "bm_edges bm"] by auto
      with sub show ?thesis by blast
    qed
    have "even_chain ?bm' (v_co bm (fst (e_v bm e))) (v_co bm (snd (e_v bm e))) ?vs ?segs"
      using ch1
    proof (rule even_chain_cong)
      fix y assume "y \<in> set ?segs"
      with segs1 not_rest show "e_v ?bm' y = e_v ?bm1 y" by (intro ev') blast+
    next
      fix v assume "v \<in> set ?vs"
      with vs1 show "v_co ?bm' v = v_co ?bm1 v" by (intro co') blast
    qed
    moreover have "set ?segs \<subseteq> set (bm_edges ?bm')"
      using segs1 edges' by blast
    moreover have "length ?segs = c + 1" "hd ?segs = e" "hd ?vs = fst (e_v bm e)"
        "last ?vs = snd (e_v bm e)"
      by simp_all
    ultimately show ?thesis
      unfolding True by blast
  next
    case False
    with x have xr: "x \<in> set rest" by simp
    with sub have xe: "x \<in> set (bm_edges bm)" by blast
    from xe False have ev1: "e_v ?bm1 x = e_v bm x" by (rule split_edge_e_v_old)
    from Cons.prems(1) xe have "fst (e_v bm x) \<in> set (bm_verts bm)" "snd (e_v bm x) \<in> set (bm_verts bm)"
      by (simp_all add: well_formed_def)
    then have "v_co ?bm1 (fst (e_v bm x)) = v_co bm (fst (e_v bm x))"
        "v_co ?bm1 (snd (e_v bm x)) = v_co bm (snd (e_v bm x))"
      by (simp_all add: split_edge_v_co_old)
    with ch' [OF xr] ev1 show ?thesis by simp
  qed
  have c_faces: "bm_faces ?bm' = bm_faces bm"
    using faces' by (simp add: split_edge_fields)
  from wf' edges1 edges' verts1 verts' c_faces c_ev c_co c_ch show ?case
    unfolding res by blast
qed

lemma filter_horizontal_edges_subset: "set (filter_horizontal_edges bm es n) \<subseteq> set es"
  by (induction es) (auto simp: Let_def)

lemma filter_vertical_edges_subset: "set (filter_vertical_edges bm es n) \<subseteq> set es"
  by (induction es) (auto simp: Let_def)

lemma chosen_edges_subset:
  "set (if vertical then filter_horizontal_edges bm es n else filter_vertical_edges bm es n) \<subseteq> set es"
  by (simp add: filter_horizontal_edges_subset filter_vertical_edges_subset)

lemma well_formed_op_log [simp]: "well_formed (bm\<lparr>op_log := l\<rparr>) = well_formed bm"
  by (simp add: well_formed_def)

lemma even_chain_op_log [simp]: "even_chain (bm\<lparr>op_log := l\<rparr>) pa pb vs segs = even_chain bm pa pb vs segs"
  by (simp add: even_chain_def)

lemma spec_subdivide_step:
  assumes wf: "well_formed b" and sub: "set es \<subseteq> set (bm_edges b)"
  shows "well_formed (snd (bmesh_ops_subdivide_edges (spec_kernel eps) b es cuts))
     \<and> bm_faces (snd (bmesh_ops_subdivide_edges (spec_kernel eps) b es cuts)) = bm_faces b
     \<and> (\<forall>x\<in>set es. \<exists>vs segs.
            length segs = nat cuts + 1 \<and> hd segs = x
            \<and> hd vs = fst (e_v b x) \<and> last vs = snd (e_v b x)
            \<and> set segs \<subseteq> set (bm_edges (snd (bmesh_ops_subdivide_edges (spec_kernel eps) b es cuts)))
            \<and> even_chain (snd (bmesh_ops_subdivide_edges (spec_kernel eps) b es cuts))
                  (v_co b (fst (e_v b x))) (v_co b (snd (e_v b x))) vs segs)"
proof -
  have d: "distinct (remdups es)" and s: "set (remdups es) \<subseteq> set (bm_edges b)"
    using sub by simp_all
  note p = split_edges_props [OF wf d s, of "nat cuts" "[]" "[]"]
  have eq: "snd (bmesh_ops_subdivide_edges (spec_kernel eps) b es cuts) =
      (fst (split_edges (remdups es) (nat cuts) (b, [], [])))\<lparr>op_log := op_log b @ [SubdivideEdges es cuts]\<rparr>"
    by (simp add: bmesh_ops_subdivide_edges_kernel spec_kernel_def subdivide_def Let_def)
  from p show ?thesis
    unfolding eq by simp
qed

lemma split_quad_loop_spec_well_formed:
  assumes "well_formed bm" and "set fs \<subseteq> set (bm_faces bm)"
  shows "well_formed (fst (split_quad_loop (spec_kernel eps) vertical cuts fs (bm, r)))
       \<and> bm_faces (fst (split_quad_loop (spec_kernel eps) vertical cuts fs (bm, r))) = bm_faces bm"
  using assms
proof (induction fs arbitrary: bm r)
  case Nil
  then show ?case by simp
next
  case (Cons f fs)
  let ?e = "if vertical then filter_horizontal_edges bm (f_edges bm f) (f_normal bm f)
            else filter_vertical_edges bm (f_edges bm f) (f_normal bm f)"
  let ?b = "snd (bmesh_ops_subdivide_edges (spec_kernel eps) bm ?e cuts)"
  from Cons.prems have f: "f \<in> set (bm_faces bm)" by simp
  with Cons.prems(1) have "set (f_edges bm f) \<subseteq> set (bm_edges bm)"
    by (simp add: well_formed_def)
  then have sub: "set ?e \<subseteq> set (bm_edges bm)"
    by (rule subset_trans [OF chosen_edges_subset])
  from spec_subdivide_step [OF Cons.prems(1) sub, of eps cuts]
  have wf: "well_formed ?b" and faces: "bm_faces ?b = bm_faces bm"
    by blast+
  from Cons.prems(2) faces have "set fs \<subseteq> set (bm_faces ?b)" by simp
  from Cons.IH [OF wf this] faces show ?case
    by (simp add: Let_def case_prod_unfold)
qed

lemma split_quad_chains:
  assumes wf: "well_formed bm" and sel: "set sel \<subseteq> set (bm_faces bm)" and i: "i < length sel"
  shows "let b = fst (split_quad_loop (spec_kernel eps) vertical cuts (take i sel) (bm, None));
             b' = fst (split_quad_loop (spec_kernel eps) vertical cuts (take (Suc i) sel) (bm, None));
             f = sel ! i;
             e = (if vertical then filter_horizontal_edges b (f_edges b f) (f_normal b f)
                  else filter_vertical_edges b (f_edges b f) (f_normal b f))
         in \<forall>x\<in>set e. \<exists>vs segs.
              length segs = nat cuts + 1 \<and> hd segs = x
              \<and> hd vs = fst (e_v b x) \<and> last vs = snd (e_v b x)
              \<and> set segs \<subseteq> set (bm_edges b')
              \<and> even_chain b' (v_co b (fst (e_v b x))) (v_co b (snd (e_v b x))) vs segs"
proof -
  let ?b = "fst (split_quad_loop (spec_kernel eps) vertical cuts (take i sel) (bm, None))"
  let ?f = "sel ! i"
  let ?e = "if vertical then filter_horizontal_edges ?b (f_edges ?b ?f) (f_normal ?b ?f)
            else filter_vertical_edges ?b (f_edges ?b ?f) (f_normal ?b ?f)"
  have "set (take i sel) \<subseteq> set (bm_faces bm)"
    using sel by (meson set_take_subset subset_trans)
  from split_quad_loop_spec_well_formed [OF wf this, of eps vertical cuts None]
  have wfb: "well_formed ?b" and faces: "bm_faces ?b = bm_faces bm"
    by blast+
  from i sel have "?f \<in> set (bm_faces ?b)"
    using faces by (auto simp: subset_iff)
  with wfb have "set (f_edges ?b ?f) \<subseteq> set (bm_edges ?b)"
    by (simp add: well_formed_def)
  then have sub: "set ?e \<subseteq> set (bm_edges ?b)"
    by (rule subset_trans [OF chosen_edges_subset])
  have step: "fst (split_quad_loop (spec_kernel eps) vertical cuts (take (Suc i) sel) (bm, None)) =
      snd (bmesh_ops_subdivide_edges (spec_kernel eps) ?b ?e cuts)"
    by (simp add: split_quad_loop_step [OF i] split_quad_loop_single Let_def)
  from spec_subdivide_step [OF wfb sub, of eps cuts] show ?thesis
    unfolding Let_def step by blast
qed

lemma split_quad_counts:
  assumes i: "i < length sel"
  shows "let b = fst (split_quad_loop (spec_kernel eps) vertical cuts (take i sel) (bm, None));
             b' = fst (split_quad_loop (spec_kernel eps) vertical cuts (take (Suc i) sel) (bm, None));
             f = sel ! i;
             e = (if vertical then filter_horizontal_edges b (f_edges b f) (f_normal b f)
                  else filter_vertical_edges b (f_edges b f) (f_normal b f))
         in length (bm_edges b') = length (bm_edges b) + nat cuts * length (remdups e)
          \<and> length (bm_verts b') = length (bm_verts b) + nat cuts * length (remdups e)"
  by (simp add: split_quad_loop_step [OF i] split_quad_loop_single Let_def
      spec_kernel_subdivide subdivide_counts)

text \<open>
  Claim C7, as amended. Let the selected faces of the mesh be \<open>faces @ [face]\<close>, in the order of
  \<^verbatim>\<open>bm.faces\<close>. \<^verbatim>\<open>split_quad\<close> calls the subdivide primitive once per selected face and not
  otherwise; call \<open>i\<close> passes \<^verbatim>\<open>cuts\<close> and the edges of face \<open>i\<close> that
  \<^verbatim>\<open>filter_horizontal_edges\<close> keeps when \<^verbatim>\<open>vertical\<close> is true, and those that
  \<^verbatim>\<open>filter_vertical_edges\<close> keeps when it is false, with the face's own normal, all read
  from the mesh as the earlier calls left it. It returns what the kernel returned for the
  last of them, on the mesh the kernel left. \<^verbatim>\<open>cuts\<close> counts cuts, not segments: with the
  subdivide of the spec every call adds \<^verbatim>\<open>cuts\<close> vertices and \<^verbatim>\<open>cuts\<close> edges for each edge
  of its set, and on a well-formed mesh each of those edges becomes a chain of
  \<^verbatim>\<open>cuts + 1\<close> segments, evenly spaced between its end points.
\<close>

theorem split_quad_subdivides_selected:
  assumes "filter (f_select bm) (bm_faces bm) = faces @ [face]"
  shows "(let bm0 = fst (split_quad_loop k vertical cuts faces (bm, None));
              e = (if vertical then filter_horizontal_edges bm0 (f_edges bm0 face) (f_normal bm0 face)
                   else filter_vertical_edges bm0 (f_edges bm0 face) (f_normal bm0 face))
          in split_quad k bm vertical cuts =
               (Inr (fst (subdivide_edges k bm0 e cuts)),
                (snd (subdivide_edges k bm0 e cuts))\<lparr>op_log := op_log bm0 @ [SubdivideEdges e cuts]\<rparr>))
       \<and> op_log (snd (split_quad k bm vertical cuts)) =
           op_log bm @
           map (\<lambda>i. let bm0 = fst (split_quad_loop k vertical cuts (take i (faces @ [face])) (bm, None));
                        f = (faces @ [face]) ! i
                    in SubdivideEdges
                         (if vertical then filter_horizontal_edges bm0 (f_edges bm0 f) (f_normal bm0 f)
                          else filter_vertical_edges bm0 (f_edges bm0 f) (f_normal bm0 f))
                         cuts)
               [0..<length (faces @ [face])]
       \<and> (\<forall>i<length (faces @ [face]).
            let b = fst (split_quad_loop (spec_kernel eps) vertical cuts (take i (faces @ [face])) (bm, None));
                b' = fst (split_quad_loop (spec_kernel eps) vertical cuts (take (Suc i) (faces @ [face])) (bm, None));
                f = (faces @ [face]) ! i;
                e = (if vertical then filter_horizontal_edges b (f_edges b f) (f_normal b f)
                     else filter_vertical_edges b (f_edges b f) (f_normal b f))
            in length (bm_edges b') = length (bm_edges b) + nat cuts * length (remdups e)
             \<and> length (bm_verts b') = length (bm_verts b) + nat cuts * length (remdups e)
             \<and> (well_formed bm \<longrightarrow>
                  (\<forall>x\<in>set e. \<exists>vs segs.
                      length segs = nat cuts + 1 \<and> hd segs = x
                      \<and> hd vs = fst (e_v b x) \<and> last vs = snd (e_v b x)
                      \<and> set segs \<subseteq> set (bm_edges b')
                      \<and> even_chain b' (v_co b (fst (e_v b x))) (v_co b (snd (e_v b x))) vs segs)))"
proof -
  have res: "split_quad k bm vertical cuts =
      (Inr (the (snd (split_quad_loop k vertical cuts (faces @ [face]) (bm, None)))),
       fst (split_quad_loop k vertical cuts (faces @ [face]) (bm, None)))"
    by (simp add: split_quad_def assms split_quad_loop_append split_quad_loop_single Let_def
        split: prod.splits)
  have first: "let bm0 = fst (split_quad_loop k vertical cuts faces (bm, None));
              e = (if vertical then filter_horizontal_edges bm0 (f_edges bm0 face) (f_normal bm0 face)
                   else filter_vertical_edges bm0 (f_edges bm0 face) (f_normal bm0 face))
          in split_quad k bm vertical cuts =
               (Inr (fst (subdivide_edges k bm0 e cuts)),
                (snd (subdivide_edges k bm0 e cuts))\<lparr>op_log := op_log bm0 @ [SubdivideEdges e cuts]\<rparr>)"
    by (simp add: res split_quad_loop_append split_quad_loop_single Let_def
        bmesh_ops_subdivide_edges_kernel)
  have "op_log (snd (split_quad k bm vertical cuts)) =
      op_log (fst (split_quad_loop k vertical cuts (faces @ [face]) (bm, None)))"
    by (simp add: res)
  then have second: "op_log (snd (split_quad k bm vertical cuts)) =
           op_log bm @
           map (\<lambda>i. let bm0 = fst (split_quad_loop k vertical cuts (take i (faces @ [face])) (bm, None));
                        f = (faces @ [face]) ! i
                    in SubdivideEdges
                         (if vertical then filter_horizontal_edges bm0 (f_edges bm0 f) (f_normal bm0 f)
                          else filter_vertical_edges bm0 (f_edges bm0 f) (f_normal bm0 f))
                         cuts)
               [0..<length (faces @ [face])]"
    by (simp only: split_quad_loop_log)
  have sel: "set (faces @ [face]) \<subseteq> set (bm_faces bm)"
    unfolding assms [symmetric] by auto
  have third: "let b = fst (split_quad_loop (spec_kernel eps) vertical cuts (take i (faces @ [face])) (bm, None));
                b' = fst (split_quad_loop (spec_kernel eps) vertical cuts (take (Suc i) (faces @ [face])) (bm, None));
                f = (faces @ [face]) ! i;
                e = (if vertical then filter_horizontal_edges b (f_edges b f) (f_normal b f)
                     else filter_vertical_edges b (f_edges b f) (f_normal b f))
            in length (bm_edges b') = length (bm_edges b) + nat cuts * length (remdups e)
             \<and> length (bm_verts b') = length (bm_verts b) + nat cuts * length (remdups e)
             \<and> (well_formed bm \<longrightarrow>
                  (\<forall>x\<in>set e. \<exists>vs segs.
                      length segs = nat cuts + 1 \<and> hd segs = x
                      \<and> hd vs = fst (e_v b x) \<and> last vs = snd (e_v b x)
                      \<and> set segs \<subseteq> set (bm_edges b')
                      \<and> even_chain b' (v_co b (fst (e_v b x))) (v_co b (snd (e_v b x))) vs segs))"
    if i: "i < length (faces @ [face])" for i
    using split_quad_counts [OF i, of eps vertical cuts bm]
      split_quad_chains [OF _ sel i, of eps vertical cuts]
    unfolding Let_def by blast
  from first second third show ?thesis by blast
qed

theorem split_quad_subdivides_selected_witness:
  "filter (f_select two_quads) (bm_faces two_quads) = [0] @ [1]
   \<and> well_formed two_quads
   \<and> fst (split_quad (spec_kernel (1/10000)) two_quads True 4) =
       Inr (fst (subdivide (fst (split_quad_loop (spec_kernel (1/10000)) True 4 [0] (two_quads, None))) [4, 6] 4))
   \<and> op_log (snd (split_quad (spec_kernel (1/10000)) two_quads True 4)) =
       [SubdivideEdges [0, 2] 4, SubdivideEdges [4, 6] 4]
   \<and> length (bm_edges two_quads) = 7
   \<and> length (bm_edges (fst (split_quad_loop (spec_kernel (1/10000)) True 4 [0] (two_quads, None)))) = 7 + 4 * 2
   \<and> length (bm_edges (fst (split_quad_loop (spec_kernel (1/10000)) True 4 [0, 1] (two_quads, None)))) = 7 + 4 * 2 + 4 * 2
   \<and> (\<exists>vs segs. length segs = 5 \<and> hd segs = 0 \<and> hd vs = 0 \<and> last vs = 1
         \<and> even_chain (fst (split_quad_loop (spec_kernel (1/10000)) True 4 [0] (two_quads, None)))
              (Vector 0 0 0) (Vector 1 0 0) vs segs)
   \<and> even_chain (fst (split_quad_loop (spec_kernel (1/10000)) True 4 [0] (two_quads, None)))
         (Vector 0 0 0) (Vector 1 0 0) [0, 6, 7, 8, 9, 1] [0, 7, 8, 9, 10]"
proof -
  let ?k = "spec_kernel (1/10000)"
  let ?b1 = "fst (split_quad_loop ?k True 4 [0] (two_quads, None))"
  have h: "filter (f_select two_quads) (bm_faces two_quads) = [0] @ [1]"
    by (simp add: two_quads_def)
  have wf: "well_formed two_quads"
    by code_simp
  have e0: "filter_horizontal_edges two_quads (f_edges two_quads 0) (f_normal two_quads 0) = [0, 2]"
    by code_simp
  have e1: "filter_horizontal_edges ?b1 (f_edges ?b1 (Suc 0)) (f_normal ?b1 (Suc 0)) = [4, 6]"
    by code_simp
  have l0: "length (bm_edges two_quads) = 7"
    by (simp add: two_quads_def)
  have op0: "op_log two_quads = []"
    by (simp add: two_quads_def)
  have ends: "e_v two_quads 0 = (0, 1)" "v_co two_quads 0 = Vector 0 0 0"
    "v_co two_quads 1 = Vector 1 0 0"
    by (simp_all add: two_quads_def)
  have explicit: "even_chain ?b1 (Vector 0 0 0) (Vector 1 0 0) [0, 6, 7, 8, 9, 1] [0, 7, 8, 9, 10]"
    by code_simp
  note t = split_quad_subdivides_selected [OF h, of ?k True 4 "1/10000"]
  note t1 = t [THEN conjunct1] and t2 = t [THEN conjunct2, THEN conjunct1]
    and t3 = t [THEN conjunct2, THEN conjunct2]
  from t1 have result: "fst (split_quad ?k two_quads True 4) = Inr (fst (subdivide ?b1 [4, 6] 4))"
    by (simp add: Let_def e1 spec_kernel_subdivide_edges del: split_quad_loop.simps)
  from t2 have log: "op_log (snd (split_quad ?k two_quads True 4)) =
      [SubdivideEdges [0, 2] 4, SubdivideEdges [4, 6] 4]"
    by (simp add: Let_def upt_rec split_quad_loop_nil e0 e1 op0 del: split_quad_loop.simps)
  from t3 [rule_format, of 0] wf
  have s0: "length (bm_edges ?b1) = 7 + 4 * 2"
    and c0: "\<forall>x\<in>set [0, 2]. \<exists>vs segs.
               length segs = nat 4 + 1 \<and> hd segs = x
               \<and> hd vs = fst (e_v two_quads x) \<and> last vs = snd (e_v two_quads x)
               \<and> set segs \<subseteq> set (bm_edges ?b1)
               \<and> even_chain ?b1 (v_co two_quads (fst (e_v two_quads x)))
                    (v_co two_quads (snd (e_v two_quads x))) vs segs"
    by (simp_all add: Let_def split_quad_loop_nil e0 l0 del: split_quad_loop.simps)
  from c0 have chain: "\<exists>vs segs. length segs = 5 \<and> hd segs = 0 \<and> hd vs = 0 \<and> last vs = 1
         \<and> even_chain ?b1 (Vector 0 0 0) (Vector 1 0 0) vs segs"
    using ends by (auto simp del: split_quad_loop.simps)
  from t3 [rule_format, of 1]
  have s1: "length (bm_edges (fst (split_quad_loop ?k True 4 [0, 1] (two_quads, None)))) = 7 + 4 * 2 + 4 * 2"
    by (simp add: Let_def e1 s0 del: split_quad_loop.simps)
  from h wf result log l0 s0 s1 chain explicit show ?thesis by blast
qed

text \<open>
  The claim as stated fails on the unit quad with \<^verbatim>\<open>cuts=4\<close>: the one call passes the edges
  0 and 2, and the edge 0 from (0,0,0) to (1,0,0) becomes the five segments 0, 4, 5, 6
  and 7, with joints at x = 1/5, 2/5, 3/5 and 4/5, not four segments.
\<close>

theorem split_quad_five_segments_counterexample:
  "filter (f_select unit_quad) (bm_faces unit_quad) = [0]
   \<and> filter_horizontal_edges unit_quad (f_edges unit_quad 0) (f_normal unit_quad 0) = [0, 2]
   \<and> e_v unit_quad 0 = (0, 1)
   \<and> v_co unit_quad 0 = Vector 0 0 0 \<and> v_co unit_quad 1 = Vector 1 0 0
   \<and> op_log cut_unit_quad = [SubdivideEdges [0, 2] 4]
   \<and> bm_edges cut_unit_quad = [0, 1, 2, 3, 4, 5, 6, 7, 8, 9, 10, 11]
   \<and> f_edges cut_unit_quad 0 = [0, 4, 5, 6, 7, 1, 2, 8, 9, 10, 11, 3]
   \<and> map (e_v cut_unit_quad) [0, 4, 5, 6, 7] = [(0, 4), (4, 5), (5, 6), (6, 7), (7, 1)]
   \<and> map (v_co cut_unit_quad) [0, 4, 5, 6, 7, 1] =
       [Vector 0 0 0, Vector (1/5) 0 0, Vector (2/5) 0 0, Vector (3/5) 0 0, Vector (4/5) 0 0,
        Vector 1 0 0]"
  by code_simp

subsection \<open>split: the merge of the vertical pass\<close>

lemma op_log_scale: "op_log (bmesh_ops_scale bm vec verts space) = op_log bm @ [Scale vec verts space]"
  by (simp add: bmesh_ops_scale_def split: Matrix.splits)

lemma op_log_translate: "op_log (bmesh_ops_translate bm verts vec) = op_log bm @ [Translate verts vec]"
  by (simp add: bmesh_ops_translate_def)

lemma op_log_remove_doubles:
  "op_log (bmesh_ops_remove_doubles k bm verts) = op_log bm @ [RemoveDoubles verts]"
  by (simp add: bmesh_ops_remove_doubles_def)

lemma op_log_split_offset:
  "\<exists>rest. op_log (split_offset bm dh dv verts offx offy offz) = op_log bm @ rest"
  by (simp add: split_offset_def Let_def op_log_translate)

lemma op_log_split_vertical:
  "\<exists>rest. op_log (snd (split_vertical k bm face dh verts median svertical)) =
     op_log bm @ RemoveDoubles (bm_verts bm) # rest"
  by (simp add: split_vertical_def Let_def case_prod_unfold op_log_scale op_log_subdivide
      op_log_remove_doubles split: option.splits)

lemma filter_not_in_filter:
  "filter (\<lambda>e. e \<notin> set (filter P xs)) (remdups xs) = filter (\<lambda>e. \<not> P e) (remdups xs)"
  by (rule filter_cong) auto

text \<open>
  Claim C9. Whenever the vertical pass of \<^verbatim>\<open>split\<close> runs (\<^verbatim>\<open>svertical\<close> below 1), the kernel's
  \<^verbatim>\<open>remove_doubles\<close> is called on the list of all vertices of the mesh, \<^verbatim>\<open>bm.verts\<close> as it
  stands after the horizontal pass if that ran and of the input mesh if it did not, and
  the mesh it returns is the mesh the rest of \<^verbatim>\<open>split\<close> works on: the face is looked up in
  it, the face's edges are classified and subdivided in it, and the mesh that \<^verbatim>\<open>split\<close>
  leaves is built from it (it is that mesh itself when no face is found). In a
  vertical-only split the merge of the whole mesh is the first primitive invoked.
\<close>

theorem split_vertical_pass_merges_all_verts:
  assumes "svertical < 1"
  shows "(let bm1 = bm\<lparr>f_select := (f_select bm)(face := False)\<rparr>;
              median = calc_center_median bm1 face;
              h = (if shorizontal < 1 then split_horizontal k bm1 face median (shorizontal * 3)
                   else (bm1, []));
              bm2 = fst h;
              merged = (remove_doubles k bm2 (bm_verts bm2))
                         \<lparr>op_log := op_log bm2 @ [RemoveDoubles (bm_verts bm2)]\<rparr>
          in case (if shorizontal < 1 then face_with_verts merged (snd h) None else Some face) of
               None \<Rightarrow>
                 split k bm face svertical shorizontal offx offy offz = (Inl AttributeError, merged)
             | Some f \<Rightarrow>
                 let vertical = filter (\<lambda>e. \<not> flat_z merged e) (remdups (f_edges merged f));
                     sub = bmesh_ops_subdivide_edges k merged vertical 2;
                     verts = as_verts (filter_geom (geom_inner (fst sub)) BMVert);
                     scaled = bmesh_ops_scale (snd sub) (Vector 1 1 (svertical * 3)) verts
                                (Translation (vneg median));
                     final = split_offset scaled (shorizontal < 1) True verts offx offy offz
                 in split k bm face svertical shorizontal offx offy offz =
                      (Inr (face_with_verts final verts None), final))
       \<and> (1 \<le> shorizontal \<longrightarrow>
            (\<exists>rest. op_log (snd (split k bm face svertical shorizontal offx offy offz)) =
                     op_log bm @ RemoveDoubles (bm_verts bm) # rest))"
proof -
  define bm1 where "bm1 = bm\<lparr>f_select := (f_select bm)(face := False)\<rparr>"
  define median where "median = calc_center_median bm1 face"
  define h where "h = (if shorizontal < 1 then split_horizontal k bm1 face median (shorizontal * 3)
                   else (bm1, []))"
  define merged where "merged = (remove_doubles k (fst h) (bm_verts (fst h)))
                         \<lparr>op_log := op_log (fst h) @ [RemoveDoubles (bm_verts (fst h))]\<rparr>"
  have sp: "split k bm face svertical shorizontal offx offy offz =
      (case split_vertical k (fst h) face (shorizontal < 1) (snd h) median (svertical * 3) of
         (Inl err, bm3) \<Rightarrow> (Inl err, bm3)
       | (Inr vs, bm3) \<Rightarrow>
           (Inr (face_with_verts (split_offset bm3 (shorizontal < 1) True vs offx offy offz) vs None),
            split_offset bm3 (shorizontal < 1) True vs offx offy offz))"
    using assms
    by (simp add: split_def Let_def case_prod_unfold bm1_def median_def h_def split: sum.splits)
  have sv: "split_vertical k (fst h) face (shorizontal < 1) (snd h) median (svertical * 3) =
      (case (if shorizontal < 1 then face_with_verts merged (snd h) None else Some face) of
         None \<Rightarrow> (Inl AttributeError, merged)
       | Some f \<Rightarrow>
           (Inr (as_verts (filter_geom (geom_inner (fst (bmesh_ops_subdivide_edges k merged
                   (filter (\<lambda>e. \<not> flat_z merged e) (remdups (f_edges merged f))) 2))) BMVert)),
            bmesh_ops_scale (snd (bmesh_ops_subdivide_edges k merged
                   (filter (\<lambda>e. \<not> flat_z merged e) (remdups (f_edges merged f))) 2))
              (Vector 1 1 (svertical * 3))
              (as_verts (filter_geom (geom_inner (fst (bmesh_ops_subdivide_edges k merged
                   (filter (\<lambda>e. \<not> flat_z merged e) (remdups (f_edges merged f))) 2))) BMVert))
              (Translation (vneg median))))"
    unfolding split_vertical_def bmesh_ops_remove_doubles_def Let_def case_prod_unfold
      filter_not_in_filter merged_def
    by (rule refl)
  have c1: "let bm1 = bm\<lparr>f_select := (f_select bm)(face := False)\<rparr>;
              median = calc_center_median bm1 face;
              h = (if shorizontal < 1 then split_horizontal k bm1 face median (shorizontal * 3)
                   else (bm1, []));
              bm2 = fst h;
              merged = (remove_doubles k bm2 (bm_verts bm2))
                         \<lparr>op_log := op_log bm2 @ [RemoveDoubles (bm_verts bm2)]\<rparr>
          in case (if shorizontal < 1 then face_with_verts merged (snd h) None else Some face) of
               None \<Rightarrow>
                 split k bm face svertical shorizontal offx offy offz = (Inl AttributeError, merged)
             | Some f \<Rightarrow>
                 let vertical = filter (\<lambda>e. \<not> flat_z merged e) (remdups (f_edges merged f));
                     sub = bmesh_ops_subdivide_edges k merged vertical 2;
                     verts = as_verts (filter_geom (geom_inner (fst sub)) BMVert);
                     scaled = bmesh_ops_scale (snd sub) (Vector 1 1 (svertical * 3)) verts
                                (Translation (vneg median));
                     final = split_offset scaled (shorizontal < 1) True verts offx offy offz
                 in split k bm face svertical shorizontal offx offy offz =
                      (Inr (face_with_verts final verts None), final)"
    unfolding Let_def bm1_def [symmetric] median_def [symmetric] h_def [symmetric]
      merged_def [symmetric]
    using sp sv by (cases "shorizontal < 1") (simp_all split: option.splits)
  have c2: "\<exists>rest. op_log (snd (split k bm face svertical shorizontal offx offy offz)) =
                     op_log bm @ RemoveDoubles (bm_verts bm) # rest"
    if "1 \<le> shorizontal"
  proof -
    from that have fh: "fst h = bm1" by (simp add: h_def)
    obtain r bm3 where svr: "split_vertical k (fst h) face (shorizontal < 1) (snd h) median
        (svertical * 3) = (r, bm3)"
      by (cases "split_vertical k (fst h) face (shorizontal < 1) (snd h) median (svertical * 3)")
    have "\<exists>rest. op_log (snd (split_vertical k (fst h) face (shorizontal < 1) (snd h) median
        (svertical * 3))) = op_log (fst h) @ RemoveDoubles (bm_verts (fst h)) # rest"
      by (rule op_log_split_vertical)
    then have "\<exists>rest. op_log bm3 = op_log (fst h) @ RemoveDoubles (bm_verts (fst h)) # rest"
      by (simp only: svr snd_conv)
    then obtain r1 where r1: "op_log bm3 = op_log bm @ RemoveDoubles (bm_verts bm) # r1"
      by (auto simp: fh bm1_def)
    show ?thesis
    proof (cases r)
      case (Inl err)
      then show ?thesis by (simp add: sp svr r1)
    next
      case (Inr vs)
      obtain r2 where "op_log (split_offset bm3 (shorizontal < 1) True vs offx offy offz) =
          op_log bm3 @ r2"
        using op_log_split_offset by blast
      with Inr show ?thesis by (simp add: sp svr r1)
    qed
  qed
  from c1 c2 show ?thesis by blast
qed

lemma bm_verts_scale: "bm_verts (bmesh_ops_scale bm vec verts space) = bm_verts bm"
  by (simp add: bmesh_ops_scale_def split: Matrix.splits)

lemma bm_verts_split_offset: "bm_verts (split_offset bm dh dv verts offx offy offz) = bm_verts bm"
  by (simp add: split_offset_def bmesh_ops_translate_def Let_def)

lemma op_log_split_offset_vertical_only:
  "op_log (split_offset bm False True verts offx offy offz) =
     op_log bm @ [Translate verts (Vector 0 0 offz)]"
  by (simp add: split_offset_def op_log_translate)

text \<open>
  On a quad with two loose vertices at one place, far from the quad, a vertical-only
  split on the kernel of the spec merges the two: vertex 1 has left the mesh.
\<close>

theorem split_vertical_pass_merges_all_verts_witness:
  "(1/2 :: real) < 1
   \<and> bm_verts quad_far_doubles = [0, 1, 2, 3, 4, 5]
   \<and> v_co quad_far_doubles 0 = Vector 9 9 9 \<and> v_co quad_far_doubles 1 = Vector 9 9 9
   \<and> f_verts quad_far_doubles 0 = [2, 3, 4, 5]
   \<and> bm_verts (snd (split (spec_kernel (1/10000)) quad_far_doubles 0 (1/2) 3 0 0 0)) =
       [0, 2, 3, 4, 5, 6, 7, 8, 9]
   \<and> op_log (snd (split (spec_kernel (1/10000)) quad_far_doubles 0 (1/2) 3 0 0 0)) =
       [RemoveDoubles [0, 1, 2, 3, 4, 5], SubdivideEdges [1, 3] 2,
        Scale (Vector 1 1 (3/2)) [6, 7, 8, 9] (Translation (Vector (-1/2) 0 (-1/2))),
        Translate [6, 7, 8, 9] (Vector 0 0 0)]"
proof -
  let ?k = "spec_kernel (1/10000)"
  let ?bm1 = "quad_far_doubles\<lparr>f_select := (f_select quad_far_doubles)(0 := False)\<rparr>"
  define merged where "merged = (remove_doubles ?k ?bm1 (bm_verts ?bm1))
                   \<lparr>op_log := op_log ?bm1 @ [RemoveDoubles (bm_verts ?bm1)]\<rparr>"
  define final where "final = split_offset
      (bmesh_ops_scale (snd (bmesh_ops_subdivide_edges ?k merged [1, 3] 2)) (Vector 1 1 (1/2 * 3))
         [6, 7, 8, 9] (Translation (vneg (calc_center_median ?bm1 0))))
      False True [6, 7, 8, 9] 0 0 0"
  have h: "(1/2 :: real) < 1" by simp
  have no_h: "((3::real) < 1) = False" by simp
  have before: "bm_verts quad_far_doubles = [0, 1, 2, 3, 4, 5]"
    "v_co quad_far_doubles 0 = Vector 9 9 9" "v_co quad_far_doubles 1 = Vector 9 9 9"
    "f_verts quad_far_doubles 0 = [2, 3, 4, 5]"
    by (simp_all add: quad_far_doubles_def)
  have vertical: "filter (\<lambda>e. \<not> flat_z merged e) (remdups (f_edges merged 0)) = [1, 3]"
    unfolding merged_def by code_simp
  have inner: "as_verts (filter_geom (geom_inner (fst (subdivide merged [1, 3] 2))) BMVert) = [6, 7, 8, 9]"
    unfolding merged_def by code_simp
  have sub_verts: "bm_verts (snd (subdivide merged [1, 3] 2)) = [0, 2, 3, 4, 5, 6, 7, 8, 9]"
    unfolding merged_def by code_simp
  have mlog: "op_log merged = [RemoveDoubles [0, 1, 2, 3, 4, 5]]"
    unfolding merged_def by code_simp
  have median: "vneg (calc_center_median ?bm1 0) = Vector (-1/2) 0 (-1/2)"
    by code_simp
  note t = split_vertical_pass_merges_all_verts [OF h, of quad_far_doubles 0 3 ?k 0 0 0]
  from t [THEN conjunct1]
  have eq: "split ?k quad_far_doubles 0 (1/2) 3 0 0 0 =
      (Inr (face_with_verts final [6, 7, 8, 9] None), final)"
    unfolding Let_def no_h if_False option.case fst_conv snd_conv
      merged_def [symmetric] vertical spec_kernel_subdivide(3) inner final_def [symmetric] .
  have "bm_verts final = bm_verts (snd (subdivide merged [1, 3] 2))"
    unfolding final_def
    by (simp only: bm_verts_split_offset bm_verts_scale spec_kernel_subdivide(2))
  then have "bm_verts final = [0, 2, 3, 4, 5, 6, 7, 8, 9]"
    by (simp only: sub_verts)
  moreover have "op_log final =
       op_log merged @ [SubdivideEdges [1, 3] 2] @
        [Scale (Vector 1 1 (1/2 * 3)) [6, 7, 8, 9] (Translation (vneg (calc_center_median ?bm1 0)))] @
        [Translate [6, 7, 8, 9] (Vector 0 0 0)]"
    unfolding final_def
    by (simp only: op_log_split_offset_vertical_only op_log_scale op_log_subdivide append_assoc)
  then have "op_log final =
       [RemoveDoubles [0, 1, 2, 3, 4, 5], SubdivideEdges [1, 3] 2,
        Scale (Vector 1 1 (3/2)) [6, 7, 8, 9] (Translation (Vector (-1/2) 0 (-1/2))),
        Translate [6, 7, 8, 9] (Vector 0 0 0)]"
    by (simp add: mlog median)
  ultimately show ?thesis
    using h before by (simp only: eq snd_conv)
qed

end
